theory Spec2Isabelle
  imports Main "HOL-Library.Word"
begin

unbundle bit_operations_syntax

section \<open>Disk geometry\<close>

text \<open>
  The constants of \<^verbatim>\<open>cocofs.c\<close>: 35 tracks of 18 sectors of 256 bytes, two granules
  of 9 sectors on every track, track 17 kept for the granule map and the directory.
\<close>

type_synonym byte = "8 word"

definition COCOFS_TRACKS :: nat where
  "COCOFS_TRACKS = 35"

definition COCOFS_SEC_PER_TRACK :: nat where
  "COCOFS_SEC_PER_TRACK = 18"

definition COCOFS_SEC_PER_GRANULE :: nat where
  "COCOFS_SEC_PER_GRANULE = 9"

definition COCOFS_BYTES_PER_SEC :: nat where
  "COCOFS_BYTES_PER_SEC = 256"

definition COCOFS_BYTES_PER_TRACK :: nat where
  "COCOFS_BYTES_PER_TRACK = COCOFS_SEC_PER_TRACK * COCOFS_BYTES_PER_SEC"

definition COCOFS_BYTES_PER_GRANULE :: nat where
  "COCOFS_BYTES_PER_GRANULE = COCOFS_SEC_PER_GRANULE * COCOFS_BYTES_PER_SEC"

definition COCOFS_TOTALSIZE :: nat where
  "COCOFS_TOTALSIZE = COCOFS_TRACKS * COCOFS_SEC_PER_TRACK * COCOFS_BYTES_PER_SEC"

definition COCOFS_DIR_TRACK :: nat where
  "COCOFS_DIR_TRACK = 17"

definition COCOFS_GRANULES_PER_TRACK :: nat where
  "COCOFS_GRANULES_PER_TRACK = COCOFS_SEC_PER_TRACK div COCOFS_SEC_PER_GRANULE"

definition COCOFS_NGRANULES :: nat where
  "COCOFS_NGRANULES = (COCOFS_TRACKS - 1) * COCOFS_GRANULES_PER_TRACK"

definition cocofs_track_to_offset :: "nat \<Rightarrow> nat" where
  "cocofs_track_to_offset track = track * (COCOFS_SEC_PER_TRACK * COCOFS_BYTES_PER_SEC)"

text \<open>Sectors are numbered from 1; the program only asks for sectors 2 and 3.\<close>

definition cocofs_sector_to_offset :: "nat \<Rightarrow> nat" where
  "cocofs_sector_to_offset sector = (sector - 1) * COCOFS_BYTES_PER_SEC"

definition cocofs_granule_to_track :: "nat \<Rightarrow> nat" where
  "cocofs_granule_to_track granule =
     (let track = granule div COCOFS_GRANULES_PER_TRACK
      in if track \<ge> COCOFS_DIR_TRACK then track + 1 else track)"

text \<open>The test \<^verbatim>\<open>granule & 1\<close> of the source is \<open>odd granule\<close>.\<close>

definition cocofs_granule_to_offset :: "nat \<Rightarrow> nat" where
  "cocofs_granule_to_offset granule =
     (let offset = cocofs_track_to_offset (cocofs_granule_to_track granule)
      in if odd granule then offset + COCOFS_BYTES_PER_GRANULE else offset)"

section \<open>Granule map entries\<close>

definition GMAP_SECTOR :: nat where
  "GMAP_SECTOR = 2"

definition GMAP_FREE :: byte where
  "GMAP_FREE = 0xff"

definition GMAP_ALLOCATED :: byte where
  "GMAP_ALLOCATED = 0xfe"

definition GMAP_LAST :: byte where
  "GMAP_LAST = 0xc0"

definition GMAP_IS_LAST :: "byte \<Rightarrow> bool" where
  "GMAP_IS_LAST v = (v AND GMAP_LAST = GMAP_LAST)"

definition GMAP_LAST_NSEC :: "byte \<Rightarrow> byte" where
  "GMAP_LAST_NSEC v = v AND 0x0f"

text \<open>
  The comparison \<^verbatim>\<open>v <= COCOFS_NGRANULES\<close> is made on the promoted \<^verbatim>\<open>int\<close>
  value of the byte, that is on \<open>unat v\<close>.
\<close>

definition gmap_entry_is_valid :: "byte \<Rightarrow> bool" where
  "gmap_entry_is_valid v =
     (unat v \<le> COCOFS_NGRANULES \<or> (v \<ge> 0xc0 \<and> v \<le> 0xc9) \<or> v = GMAP_FREE)"

section \<open>The image and its two views\<close>

text \<open>
  \<^verbatim>\<open>struct cocofs\<close>: the image buffer is a store from byte offsets to bytes, and the
  count of free granules is an \<^verbatim>\<open>unsigned int\<close>.  The pointers \<^verbatim>\<open>granule_map\<close> and
  \<^verbatim>\<open>directory\<close> that \<^verbatim>\<open>cocofs_alloc\<close> caches point into the same buffer; here
  they are the offsets \<open>granule_map_off\<close> and \<open>directory_off\<close>, so that a write through
  one view is seen through the other exactly as in the source.  The file descriptor of
  the image is not part of the model.
\<close>

record cocofs =
  image_data :: "nat \<Rightarrow> byte"
  free_granules :: "32 word"

definition directory_track_off :: nat where
  "directory_track_off = cocofs_track_to_offset COCOFS_DIR_TRACK"

definition granule_map_off :: nat where
  "granule_map_off = directory_track_off + cocofs_sector_to_offset GMAP_SECTOR"

definition COCOFS_DIR_TRACK_FIRST_SEC :: nat where
  "COCOFS_DIR_TRACK_FIRST_SEC = 3"

definition COCOFS_DIR_TRACK_NSEC :: nat where
  "COCOFS_DIR_TRACK_NSEC = 9"

definition sizeof_dirent :: nat where
  "sizeof_dirent = 8 + 3 + 1 + 1 + 1 + 2 + 16"

definition COCOFS_DIR_TRACK_NENTRIES :: nat where
  "COCOFS_DIR_TRACK_NENTRIES = (COCOFS_DIR_TRACK_NSEC * COCOFS_BYTES_PER_SEC) div sizeof_dirent"

definition directory_off :: nat where
  "directory_off = directory_track_off + cocofs_sector_to_offset COCOFS_DIR_TRACK_FIRST_SEC"

text \<open>\<^verbatim>\<open>memcpy\<close> out of and into the buffer, and \<^verbatim>\<open>memset\<close>.\<close>

definition read_bytes :: "(nat \<Rightarrow> byte) \<Rightarrow> nat \<Rightarrow> nat \<Rightarrow> byte list" where
  "read_bytes mem off n = map (\<lambda>k. mem (off + k)) [0..<n]"

definition write_bytes :: "(nat \<Rightarrow> byte) \<Rightarrow> nat \<Rightarrow> byte list \<Rightarrow> (nat \<Rightarrow> byte)" where
  "write_bytes mem off bs =
     (\<lambda>a. if off \<le> a \<and> a < off + length bs then bs ! (a - off) else mem a)"

definition memset_bytes :: "(nat \<Rightarrow> byte) \<Rightarrow> nat \<Rightarrow> byte \<Rightarrow> nat \<Rightarrow> (nat \<Rightarrow> byte)" where
  "memset_bytes mem off v n = (\<lambda>a. if off \<le> a \<and> a < off + n then v else mem a)"

definition granule_map :: "cocofs \<Rightarrow> nat \<Rightarrow> byte" where
  "granule_map fs g = image_data fs (granule_map_off + g)"

definition set_granule_map :: "cocofs \<Rightarrow> nat \<Rightarrow> byte \<Rightarrow> cocofs" where
  "set_granule_map fs g v = fs\<lparr>image_data := (image_data fs)(granule_map_off + g := v)\<rparr>"

text \<open>
  \<^verbatim>\<open>struct cocofs_dirent\<close>, 32 bytes: \<^verbatim>\<open>d_name[8]\<close>, \<^verbatim>\<open>d_ext[3]\<close>, \<^verbatim>\<open>d_type\<close>,
  \<^verbatim>\<open>d_encoding\<close>, \<^verbatim>\<open>d_first_granule\<close>, \<^verbatim>\<open>d_last_bytes[2]\<close>, \<^verbatim>\<open>d_unused[16]\<close>.
  A \<^verbatim>\<open>struct cocofs_dirent *\<close> into the directory is the index of its slot.
\<close>

definition dirent_off :: "nat \<Rightarrow> nat" where
  "dirent_off di = directory_off + di * sizeof_dirent"

definition d_name :: "cocofs \<Rightarrow> nat \<Rightarrow> byte list" where
  "d_name fs di = read_bytes (image_data fs) (dirent_off di) 8"

definition d_ext :: "cocofs \<Rightarrow> nat \<Rightarrow> byte list" where
  "d_ext fs di = read_bytes (image_data fs) (dirent_off di + 8) 3"

definition d_type :: "cocofs \<Rightarrow> nat \<Rightarrow> byte" where
  "d_type fs di = image_data fs (dirent_off di + 11)"

definition d_encoding :: "cocofs \<Rightarrow> nat \<Rightarrow> byte" where
  "d_encoding fs di = image_data fs (dirent_off di + 12)"

definition d_first_granule :: "cocofs \<Rightarrow> nat \<Rightarrow> byte" where
  "d_first_granule fs di = image_data fs (dirent_off di + 13)"

definition d_last_bytes :: "cocofs \<Rightarrow> nat \<Rightarrow> byte \<times> byte" where
  "d_last_bytes fs di = (image_data fs (dirent_off di + 14), image_data fs (dirent_off di + 15))"

definition dirent_bytes :: "cocofs \<Rightarrow> nat \<Rightarrow> byte list" where
  "dirent_bytes fs di = read_bytes (image_data fs) (dirent_off di) sizeof_dirent"

definition COCOFS_DIRENT_TYPE_TEXT :: byte where
  "COCOFS_DIRENT_TYPE_TEXT = 0x03"

definition COCOFS_DIRENT_TYPE_FREE :: byte where
  "COCOFS_DIRENT_TYPE_FREE = 0xff"

text \<open>\<^verbatim>\<open>(lastbytes[0] << 8) | lastbytes[1]\<close> on the promoted values.\<close>

definition cocofs_dir_lastbytes :: "byte \<times> byte \<Rightarrow> nat" where
  "cocofs_dir_lastbytes lastbytes =
     unat ((push_bit 8 (ucast (fst lastbytes) :: 32 word)) OR ucast (snd lastbytes))"

text \<open>
  \<^verbatim>\<open>cocofs_dir_set_lastbytes\<close> asserts \<^verbatim>\<open>cnt <= 256\<close>; \<open>None\<close> is the failed assertion.
\<close>

definition cocofs_dir_set_lastbytes :: "32 word \<Rightarrow> (byte \<times> byte) option" where
  "cocofs_dir_set_lastbytes cnt =
     (if unat cnt \<le> COCOFS_BYTES_PER_SEC then Some (ucast (drop_bit 8 cnt), ucast cnt) else None)"

section \<open>Format and load\<close>

text \<open>
  \<^verbatim>\<open>cocofs_alloc\<close> gives a zeroed buffer; \<^verbatim>\<open>cocofs_format\<close> fills it with 0xff.
  \<^verbatim>\<open>cocofs_load\<close> reads at most the image size from the file and counts the free
  entries of the granule map.
\<close>

definition cocofs_alloc :: cocofs where
  "cocofs_alloc = \<lparr>image_data = (\<lambda>a. 0), free_granules = 0\<rparr>"

definition cocofs_format :: cocofs where
  "cocofs_format =
     cocofs_alloc\<lparr>image_data := memset_bytes (image_data cocofs_alloc) 0 0xff COCOFS_TOTALSIZE,
                  free_granules := of_nat COCOFS_NGRANULES\<rparr>"

fun load_count :: "cocofs \<Rightarrow> nat list \<Rightarrow> cocofs" where
  "load_count fs [] = fs"
| "load_count fs (i # is) =
     load_count (if granule_map fs i = GMAP_FREE
                 then fs\<lparr>free_granules := free_granules fs + 1\<rparr> else fs) is"

definition cocofs_load :: "byte list \<Rightarrow> cocofs" where
  "cocofs_load file =
     load_count (cocofs_alloc\<lparr>image_data :=
                   write_bytes (image_data cocofs_alloc) 0 (take COCOFS_TOTALSIZE file)\<rparr>)
                [0..<COCOFS_NGRANULES]"

lemmas cocofs_consts =
  COCOFS_TRACKS_def COCOFS_SEC_PER_TRACK_def COCOFS_SEC_PER_GRANULE_def
  COCOFS_BYTES_PER_SEC_def COCOFS_BYTES_PER_TRACK_def COCOFS_BYTES_PER_GRANULE_def
  COCOFS_TOTALSIZE_def COCOFS_DIR_TRACK_def COCOFS_GRANULES_PER_TRACK_def
  COCOFS_NGRANULES_def GMAP_SECTOR_def GMAP_FREE_def GMAP_ALLOCATED_def GMAP_LAST_def
  COCOFS_DIR_TRACK_FIRST_SEC_def COCOFS_DIR_TRACK_NSEC_def sizeof_dirent_def
  COCOFS_DIR_TRACK_NENTRIES_def COCOFS_DIRENT_TYPE_TEXT_def COCOFS_DIRENT_TYPE_FREE_def
  cocofs_track_to_offset_def cocofs_sector_to_offset_def
  directory_track_off_def granule_map_off_def directory_off_def

section \<open>Directory lookup\<close>

text \<open>
  \<^verbatim>\<open>cocofs_lookup_raw\<close>: the loop over the slots, from index \<open>i\<close> on.  \<^verbatim>\<open>memcmp\<close>
  compares the 8 name bytes and the 3 extension bytes; \<open>None\<close> is the \<^verbatim>\<open>NULL\<close> result.
\<close>

function lookup_raw_loop :: "cocofs \<Rightarrow> byte list \<Rightarrow> byte list \<Rightarrow> nat \<Rightarrow> nat option" where
  "lookup_raw_loop fs name ext i =
     (if i < COCOFS_DIR_TRACK_NENTRIES then
        if d_type fs i = COCOFS_DIRENT_TYPE_FREE then lookup_raw_loop fs name ext (i + 1)
        else if d_name fs i \<noteq> take 8 name then lookup_raw_loop fs name ext (i + 1)
        else if d_ext fs i \<noteq> take 3 ext then lookup_raw_loop fs name ext (i + 1)
        else Some i
      else None)"
  by pat_completeness auto
termination
  by (relation "measure (\<lambda>(fs, name, ext, i). COCOFS_DIR_TRACK_NENTRIES - i)") auto

declare lookup_raw_loop.simps [simp del]

definition cocofs_lookup_raw :: "cocofs \<Rightarrow> byte list \<Rightarrow> byte list \<Rightarrow> nat option" where
  "cocofs_lookup_raw fs name ext = lookup_raw_loop fs name ext 0"

section \<open>Size of a file\<close>

text \<open>
  The loop of \<^verbatim>\<open>cocofs_stat\<close>.  The result is the size \<^verbatim>\<open>size\<close> (here \<open>sz\<close>) so far, \<^verbatim>\<open>last_nsec\<close>, the
  value of \<^verbatim>\<open>loopcnt\<close> when the loop is left, and the number of times the loop body was
  entered (which the source does not keep; the bound on the walk is stated about it).
  The granule \<^verbatim>\<open>g\<close> is a \<^verbatim>\<open>uint8_t\<close> and is not checked against the number of
  granules before \<^verbatim>\<open>granule_map[g]\<close> is read.
\<close>

function stat_loop ::
  "cocofs \<Rightarrow> nat \<Rightarrow> byte \<Rightarrow> 32 word \<Rightarrow> nat \<Rightarrow> 32 word \<times> 32 word \<times> nat \<times> nat" where
  "stat_loop fs loopcnt g sz steps =
     (if loopcnt \<le> COCOFS_NGRANULES then
        let gn = granule_map fs (unat g) in
        if \<not> gmap_entry_is_valid gn \<or> gn = GMAP_FREE then (sz, 0, loopcnt, steps + 1)
        else if GMAP_IS_LAST gn then (sz, ucast (GMAP_LAST_NSEC gn), loopcnt, steps + 1)
        else stat_loop fs (loopcnt + 1) gn
               (sz + of_nat (COCOFS_SEC_PER_GRANULE * COCOFS_BYTES_PER_SEC)) (steps + 1)
      else (sz, 0, loopcnt, steps))"
  by pat_completeness auto
termination
  by (relation "measure (\<lambda>(fs, loopcnt, g, sz, steps). Suc COCOFS_NGRANULES - loopcnt)") auto

declare stat_loop.simps [simp del]

record cocofs_stat_t =
  st_size :: "32 word"
  st_name :: "byte list"
  st_ext :: "byte list"
  st_type :: byte
  st_encoding :: byte

text \<open>The trailing blanks of the name and the extension are cut off.\<close>

definition trim_blanks :: "byte list \<Rightarrow> byte list" where
  "trim_blanks bs = rev (dropWhile (\<lambda>c. c = 0x20) (rev bs))"

definition stat_size :: "cocofs \<Rightarrow> nat \<Rightarrow> 32 word" where
  "stat_size fs dir =
     (case stat_loop fs 0 (d_first_granule fs dir) 0 0 of
        (sz, last_nsec, loopcnt, steps) \<Rightarrow>
          if last_nsec \<noteq> 0 then
            let sz1 = sz + last_nsec * of_nat COCOFS_BYTES_PER_SEC;
                lastsec_bytes0 = cocofs_dir_lastbytes (d_last_bytes fs dir);
                lastsec_bytes = (if lastsec_bytes0 > COCOFS_BYTES_PER_SEC
                                 then COCOFS_BYTES_PER_SEC else lastsec_bytes0)
            in sz1 - of_nat (COCOFS_BYTES_PER_SEC - lastsec_bytes)
          else sz)"

definition cocofs_stat :: "cocofs \<Rightarrow> nat \<Rightarrow> cocofs_stat_t" where
  "cocofs_stat fs dir =
     \<lparr>st_size = stat_size fs dir,
      st_name = trim_blanks (d_name fs dir),
      st_ext = trim_blanks (d_ext fs dir),
      st_type = d_type fs dir,
      st_encoding = d_encoding fs dir\<rparr>"

section \<open>Listing the directory\<close>

text \<open>
  \<^verbatim>\<open>cocofs_enumerate_directory\<close> with \<^verbatim>\<open>do_dump\<close> false: the slots it counts and
  prints as files, in order, each with what \<^verbatim>\<open>cocofs_stat\<close> gives for it.
\<close>

function enumerate_loop :: "cocofs \<Rightarrow> nat \<Rightarrow> (nat \<times> cocofs_stat_t) list" where
  "enumerate_loop fs di =
     (if di < COCOFS_DIR_TRACK_NENTRIES then
        if d_type fs di > COCOFS_DIRENT_TYPE_TEXT then enumerate_loop fs (di + 1)
        else (di, cocofs_stat fs di) # enumerate_loop fs (di + 1)
      else [])"
  by pat_completeness auto
termination
  by (relation "measure (\<lambda>(fs, di). COCOFS_DIR_TRACK_NENTRIES - di)") auto

declare enumerate_loop.simps [simp del]

definition cocofs_enumerate_directory :: "cocofs \<Rightarrow> (nat \<times> cocofs_stat_t) list" where
  "cocofs_enumerate_directory fs = enumerate_loop fs 0"

section \<open>Removing a file\<close>






section \<open>Copying a file out\<close>

text \<open>
  The output file is what \<^verbatim>\<open>write\<close> answers, given the bytes written so far and the
  buffer: \<open>-1\<close> or the number of bytes taken.  The file starts empty.
\<close>

type_synonym writer = "byte list \<Rightarrow> byte list \<Rightarrow> int"

definition sys_write :: "writer \<Rightarrow> byte list \<Rightarrow> byte list \<Rightarrow> int \<times> byte list" where
  "sys_write w out buf =
     (let rv = w out buf in (rv, if rv < 0 then out else out @ take (nat rv) buf))"

datatype copyout_error =
  CO_open | CO_cycle | CO_invalid_granule | CO_invalid_entry | CO_write | CO_last_nsec

text \<open>
  The loop of \<^verbatim>\<open>cocofs_copyout\<close>.  Its header is
  \<^verbatim>\<open>for (gi = 0, g = dir->d_first_granule, loopcnt = 0;; gi++, g = gn)\<close>: nothing in
  the loop changes \<^verbatim>\<open>loopcnt\<close>, and the loop is left only through a \<^verbatim>\<open>goto bad\<close> or
  the \<^verbatim>\<open>break\<close> at the last granule.  A walk that never leaves it has the value \<open>None\<close>.
  Otherwise the result is the error with the bytes written so far, or \<^verbatim>\<open>last_nsec\<close>,
  the last granule and the bytes written so far.
\<close>

partial_function (option) copyout_loop ::
  "cocofs \<Rightarrow> writer \<Rightarrow> byte list \<Rightarrow> nat \<Rightarrow> nat \<Rightarrow> byte \<Rightarrow>
     ((copyout_error \<times> byte list) + (nat \<times> byte \<times> byte list)) option" where
  "copyout_loop fs w out loopcnt gi g =
     (if loopcnt > COCOFS_NGRANULES then Some (Inl (CO_cycle, out))
      else if unat g \<ge> COCOFS_NGRANULES then Some (Inl (CO_invalid_granule, out))
      else if \<not> gmap_entry_is_valid (granule_map fs (unat g)) \<or>
              granule_map fs (unat g) = GMAP_FREE then Some (Inl (CO_invalid_entry, out))
      else if GMAP_IS_LAST (granule_map fs (unat g))
        then Some (Inr (unat (GMAP_LAST_NSEC (granule_map fs (unat g))), g, out))
      else if fst (sys_write w out (read_bytes (image_data fs)
                     (cocofs_granule_to_offset (unat g)) COCOFS_BYTES_PER_GRANULE))
                \<noteq> int COCOFS_BYTES_PER_GRANULE
        then Some (Inl (CO_write, snd (sys_write w out (read_bytes (image_data fs)
                     (cocofs_granule_to_offset (unat g)) COCOFS_BYTES_PER_GRANULE))))
      else copyout_loop fs w
             (snd (sys_write w out (read_bytes (image_data fs)
                     (cocofs_granule_to_offset (unat g)) COCOFS_BYTES_PER_GRANULE)))
             loopcnt (gi + 1) (granule_map fs (unat g)))"

declare copyout_loop.simps [code]

definition cocofs_copyout ::
  "cocofs \<Rightarrow> nat \<Rightarrow> bool \<Rightarrow> writer \<Rightarrow> (copyout_error \<times> byte list + byte list) option" where
  "cocofs_copyout fs dir open_ok w =
     (if \<not> open_ok then Some (Inl (CO_open, []))
      else case copyout_loop fs w [] 0 0 (d_first_granule fs dir) of
        None \<Rightarrow> None
      | Some (Inl e) \<Rightarrow> Some (Inl e)
      | Some (Inr (last_nsec, g, out)) \<Rightarrow>
          if last_nsec < 1 \<or> last_nsec > COCOFS_SEC_PER_GRANULE then Some (Inl (CO_last_nsec, out))
          else
            let last_nbytes0 = cocofs_dir_lastbytes (d_last_bytes fs dir);
                last_nbytes1 = (if last_nbytes0 > COCOFS_BYTES_PER_SEC
                                then COCOFS_BYTES_PER_SEC else last_nbytes0);
                last_nbytes = last_nsec * COCOFS_BYTES_PER_SEC - (COCOFS_BYTES_PER_SEC - last_nbytes1);
                res = sys_write w out (read_bytes (image_data fs)
                        (cocofs_granule_to_offset (unat g)) last_nbytes)
            in if fst res \<noteq> int last_nbytes then Some (Inl (CO_write, snd res))
               else Some (Inr (snd res)))"

section \<open>Allocating a granule\<close>

text \<open>
  \<^verbatim>\<open>cocofs_galloc\<close>: at most \<^verbatim>\<open>COCOFS_NGRANULES + 1\<close> probes, from \<^verbatim>\<open>last\<close> (here \<open>lastg\<close>) on and
  wrapping to 0 after the last granule.  \<open>None\<close> is the \<^verbatim>\<open>abort()\<close> after the loop.
  The result is the granule, the new state and the number of probes made.
\<close>

function galloc_loop :: "cocofs \<Rightarrow> nat \<Rightarrow> nat \<Rightarrow> (nat \<times> cocofs \<times> nat) option" where
  "galloc_loop fs loopcnt g =
     (if loopcnt \<le> COCOFS_NGRANULES then
        if granule_map fs g = GMAP_FREE
        then Some (g, (set_granule_map fs g GMAP_ALLOCATED)\<lparr>free_granules := free_granules fs - 1\<rparr>,
                   loopcnt + 1)
        else galloc_loop fs (loopcnt + 1) (if g + 1 = COCOFS_NGRANULES then 0 else g + 1)
      else None)"
  by pat_completeness auto
termination
  by (relation "measure (\<lambda>(fs, loopcnt, g). Suc COCOFS_NGRANULES - loopcnt)") auto

declare galloc_loop.simps [simp del]

definition cocofs_galloc :: "cocofs \<Rightarrow> nat \<Rightarrow> (nat \<times> cocofs \<times> nat) option" where
  "cocofs_galloc fs lastg = galloc_loop fs 0 lastg"

section \<open>Copying a file in\<close>

text \<open>
  The source file: whether \<^verbatim>\<open>open\<close> succeeds, what \<^verbatim>\<open>fstat\<close> gives as
  \<^verbatim>\<open>st_size\<close> (\<open>None\<close> when it fails), and what a read of \<open>nbyte\<close> bytes at an offset
  answers: \<open>None\<close> for \<open>-1\<close>, or the bytes read, of which at most \<open>nbyte\<close> reach the
  buffer.
\<close>

record infile =
  in_open_ok :: bool
  in_fstat :: "nat option"
  in_pread :: "nat \<Rightarrow> nat \<Rightarrow> byte list option"

definition cocofs_pread ::
  "infile \<Rightarrow> (nat \<Rightarrow> byte) \<Rightarrow> nat \<Rightarrow> nat \<Rightarrow> nat \<Rightarrow> int \<times> (nat \<Rightarrow> byte)" where
  "cocofs_pread src mem buf nbyte offset =
     (case in_pread src offset nbyte of
        None \<Rightarrow> (- 1, mem)
      | Some bs \<Rightarrow> (int (length (take nbyte bs)), write_bytes mem buf (take nbyte bs)))"

datatype copyin_error = CI_open | CI_fstat | CI_nospace | CI_nodir | CI_read

datatype copyin_result = Copyin_aborted | Copyin_failed copyin_error cocofs | Copyin_ok cocofs

text \<open>The search for a free directory entry, from slot \<open>i\<close> on.\<close>

function find_free_dirent :: "cocofs \<Rightarrow> nat \<Rightarrow> nat option" where
  "find_free_dirent fs i =
     (if i < COCOFS_DIR_TRACK_NENTRIES then
        if d_type fs i = COCOFS_DIRENT_TYPE_FREE then Some i else find_free_dirent fs (i + 1)
      else None)"
  by pat_completeness auto
termination
  by (relation "measure (\<lambda>(fs, i). COCOFS_DIR_TRACK_NENTRIES - i)") auto

declare find_free_dirent.simps [simp del]

text \<open>
  The allocation loop.  \<^verbatim>\<open>glist\<close> is an array of \<^verbatim>\<open>COCOFS_NGRANULES\<close> bytes; a store
  past its end is undefined in C and ends the model like an abort.
\<close>

function alloc_loop ::
  "cocofs \<Rightarrow> byte list \<Rightarrow> nat \<Rightarrow> nat \<Rightarrow> nat \<Rightarrow> (cocofs \<times> byte list) option" where
  "alloc_loop fs glist lastg gi granules_needed =
     (if gi < granules_needed then
        case cocofs_galloc fs lastg of
          None \<Rightarrow> None
        | Some (g, fs', probes) \<Rightarrow>
            if gi < length glist
            then alloc_loop fs' (glist[gi := of_nat g]) g (gi + 1) granules_needed
            else None
      else Some (fs, glist))"
  by pat_completeness auto
termination
  by (relation "measure (\<lambda>(fs, glist, lastg, gi, granules_needed). granules_needed - gi)") auto

declare alloc_loop.simps [simp del]

text \<open>
  What the data loop does to the last granule of the file, after its bytes have been
  read: the terminal entry of the map, the zeroed tail of the granule, the directory
  entry.  \<open>None\<close> is a failed assertion.
\<close>

definition write_last ::
  "cocofs \<Rightarrow> nat \<Rightarrow> byte list \<Rightarrow> nat \<Rightarrow> nat \<Rightarrow> nat \<Rightarrow> nat \<Rightarrow>
     byte list \<Rightarrow> byte list \<Rightarrow> byte \<Rightarrow> byte \<Rightarrow> cocofs option" where
  "write_last fs dir glist granules_needed gi g resid name ext type enc =
     (let nsec = (of_nat (resid div COCOFS_BYTES_PER_SEC) :: byte) +
                 (if resid mod COCOFS_BYTES_PER_SEC \<noteq> 0 then 1 else 0)
      in if gi + 1 \<noteq> granules_needed then None
         else if \<not> unat nsec \<le> COCOFS_SEC_PER_GRANULE then None
         else
           let fs1 = set_granule_map fs g (GMAP_LAST OR nsec);
               lastbytes = (if resid mod COCOFS_BYTES_PER_SEC = 0
                            then COCOFS_BYTES_PER_SEC else resid mod COCOFS_BYTES_PER_SEC);
               trailing = COCOFS_BYTES_PER_GRANULE - resid;
               img2 = (if trailing \<noteq> 0
                       then memset_bytes (image_data fs1) (cocofs_granule_to_offset g + resid) 0 trailing
                       else image_data fs1);
               img3 = write_bytes img2 (dirent_off dir) (take 8 name);
               img4 = write_bytes img3 (dirent_off dir + 8) (take 3 ext);
               img5 = img4(dirent_off dir + 11 := type);
               img6 = img5(dirent_off dir + 12 := enc);
               img7 = img6(dirent_off dir + 13 := glist ! 0)
           in case cocofs_dir_set_lastbytes (of_nat lastbytes) of
                None \<Rightarrow> None
              | Some (b0, b1) \<Rightarrow>
                  Some (fs1\<lparr>image_data := img7(dirent_off dir + 14 := b0, dirent_off dir + 15 := b1)\<rparr>))"

datatype write_result = Write_abort | Write_bad cocofs | Write_done cocofs

text \<open>
  One pass through the body of the data loop: \<^verbatim>\<open>resid\<close> bytes are still to be
  read and \<^verbatim>\<open>gi\<close> granules are done.  \<open>Write_abort\<close> is a failed assertion (or a
  read past the end of \<^verbatim>\<open>glist\<close>); \<open>Write_bad\<close> is the \<^verbatim>\<open>goto bad\<close> after a read
  that did not give \<^verbatim>\<open>cursz\<close> bytes, with whatever the read put into the buffer;
  \<open>Write_done\<close> is the end of the body.
\<close>

definition write_body ::
  "cocofs \<Rightarrow> infile \<Rightarrow> nat \<Rightarrow> byte list \<Rightarrow> nat \<Rightarrow> byte list \<Rightarrow> byte list \<Rightarrow> byte \<Rightarrow> byte \<Rightarrow>
     nat \<Rightarrow> nat \<Rightarrow> write_result" where
  "write_body fs src dir glist granules_needed name ext type enc gi resid =
     (let cursz = (if resid > COCOFS_BYTES_PER_GRANULE then COCOFS_BYTES_PER_GRANULE else resid)
      in if \<not> gi < length glist then Write_abort
         else
           let g = unat (glist ! gi)
           in if granule_map fs g \<noteq> GMAP_ALLOCATED then Write_abort
              else
                case cocofs_pread src (image_data fs) (cocofs_granule_to_offset g) cursz
                       (gi * COCOFS_BYTES_PER_GRANULE) of
                  (rv, img) \<Rightarrow>
                    if rv \<noteq> int cursz then Write_bad (fs\<lparr>image_data := img\<rparr>)
                    else if resid \<le> COCOFS_BYTES_PER_GRANULE then
                      (case write_last (fs\<lparr>image_data := img\<rparr>) dir glist granules_needed gi g
                              resid name ext type enc of
                         None \<Rightarrow> Write_abort
                       | Some fs' \<Rightarrow> Write_done fs')
                    else if \<not> gi + 1 < granules_needed then Write_abort
                    else if \<not> gi + 1 < length glist then Write_abort
                    else Write_done (set_granule_map (fs\<lparr>image_data := img\<rparr>) g (glist ! (gi + 1))))"

text \<open>
  The data loop \<^verbatim>\<open>for (gi = 0, resid = st_size; resid != 0; gi++, resid -= cursz)\<close>.
\<close>

function write_loop ::
  "cocofs \<Rightarrow> infile \<Rightarrow> nat \<Rightarrow> byte list \<Rightarrow> nat \<Rightarrow> byte list \<Rightarrow> byte list \<Rightarrow> byte \<Rightarrow> byte \<Rightarrow>
     nat \<Rightarrow> nat \<Rightarrow> write_result" where
  "write_loop fs src dir glist granules_needed name ext type enc gi resid =
     (if resid \<noteq> 0 then
        case write_body fs src dir glist granules_needed name ext type enc gi resid of
          Write_abort \<Rightarrow> Write_abort
        | Write_bad fs' \<Rightarrow> Write_bad fs'
        | Write_done fs' \<Rightarrow>
            write_loop fs' src dir glist granules_needed name ext type enc (gi + 1)
              (resid - (if resid > COCOFS_BYTES_PER_GRANULE then COCOFS_BYTES_PER_GRANULE else resid))
      else Write_done fs)"
  by pat_completeness auto
termination
  by (relation "measure (\<lambda>(fs, src, dir, glist, granules_needed, name, ext, type, enc, gi, resid). resid)")
     (auto simp: COCOFS_BYTES_PER_GRANULE_def COCOFS_SEC_PER_GRANULE_def COCOFS_BYTES_PER_SEC_def)

declare write_loop.simps [simp del]

text \<open>
  The label \<^verbatim>\<open>bad\<close>: the claimed directory entry, if there is one, is filled with
  0xff, the saved granule map is copied back and the saved count is restored.
\<close>

definition copyin_bad ::
  "cocofs \<Rightarrow> byte list \<Rightarrow> 32 word \<Rightarrow> nat option \<Rightarrow> copyin_error \<Rightarrow> copyin_result" where
  "copyin_bad fs orig_gmap orig_free_granules dir err =
     (let img1 = (case dir of
                    None \<Rightarrow> image_data fs
                  | Some d \<Rightarrow> memset_bytes (image_data fs) (dirent_off d) 0xff sizeof_dirent)
      in Copyin_failed err
           \<lparr>image_data = write_bytes img1 granule_map_off orig_gmap,
            free_granules = orig_free_granules\<rparr>)"

text \<open>
  \<^verbatim>\<open>cocofs_copyin\<close>.  \<^verbatim>\<open>sb.st_size\<close> is compared as an \<^verbatim>\<open>unsigned long long\<close> with the
  \<^verbatim>\<open>unsigned int\<close> product \<^verbatim>\<open>free_granules * COCOFS_BYTES_PER_GRANULE\<close>; the count of
  granules (\<open>granules_needed_for\<close>, the quotient and the increment of the source) and
  \<^verbatim>\<open>resid\<close> are \<^verbatim>\<open>unsigned int\<close>.  \<open>Copyin_aborted\<close> is a failed
  assertion or the \<^verbatim>\<open>abort()\<close> of \<^verbatim>\<open>cocofs_galloc\<close>.
\<close>

definition granules_needed_for :: "nat \<Rightarrow> nat" where
  "granules_needed_for sb_st_size =
     ((sb_st_size div COCOFS_BYTES_PER_GRANULE) mod 2 ^ 32 +
      (if sb_st_size mod COCOFS_BYTES_PER_GRANULE \<noteq> 0 then 1 else 0)) mod 2 ^ 32"

definition cocofs_copyin ::
  "cocofs \<Rightarrow> infile \<Rightarrow> byte list \<Rightarrow> byte list \<Rightarrow> byte \<Rightarrow> byte \<Rightarrow> copyin_result" where
  "cocofs_copyin fs src name ext type enc =
     (let orig_gmap = read_bytes (image_data fs) granule_map_off COCOFS_NGRANULES;
          orig_free_granules = free_granules fs;
          glist = replicate COCOFS_NGRANULES (0xff :: byte)
      in if \<not> in_open_ok src then Copyin_failed CI_open fs
         else case in_fstat src of
           None \<Rightarrow> copyin_bad fs orig_gmap orig_free_granules None CI_fstat
         | Some sb_st_size \<Rightarrow>
             if sb_st_size > unat (free_granules fs * of_nat COCOFS_BYTES_PER_GRANULE)
             then copyin_bad fs orig_gmap orig_free_granules None CI_nospace
             else
               let granules_needed = granules_needed_for sb_st_size
               in if \<not> granules_needed \<le> unat (free_granules fs) then Copyin_aborted
                  else case find_free_dirent fs 0 of
                    None \<Rightarrow> copyin_bad fs orig_gmap orig_free_granules None CI_nodir
                  | Some dir \<Rightarrow>
                      (case alloc_loop fs glist (COCOFS_NGRANULES div 2) 0 granules_needed of
                         None \<Rightarrow> Copyin_aborted
                       | Some (fs1, glist1) \<Rightarrow>
                           (case write_loop fs1 src dir glist1 granules_needed name ext type enc
                                   0 (sb_st_size mod 2 ^ 32) of
                              Write_abort \<Rightarrow> Copyin_aborted
                            | Write_bad fs2 \<Rightarrow>
                                copyin_bad fs2 orig_gmap orig_free_granules (Some dir) CI_read
                            | Write_done fs2 \<Rightarrow> Copyin_ok fs2)))"

section \<open>The validity test of a granule map entry\<close>

text \<open>
  C3.  The validity test is claimed to accept exactly the free mark 0xff, the terminal
  values 0xc0 to 0xc9 and the links 0 to 67.  The test of the source compares with
  \<^verbatim>\<open>v <= COCOFS_NGRANULES\<close>, so the byte 68 is accepted as well, although it is neither
  free nor terminal nor the index of a granule.
\<close>

theorem gmap_entry_is_valid_accepts_68:
  "gmap_entry_is_valid 68 \<and> (68 :: byte) \<noteq> GMAP_FREE \<and> \<not> (0xc0 \<le> (68 :: byte)) \<and>
   \<not> unat (68 :: byte) \<le> 67"
  by (simp add: gmap_entry_is_valid_def cocofs_consts)

section \<open>Lookup and listing\<close>

text \<open>
  A slot is eligible for a lookup when its type byte is not the free mark and its name
  and extension bytes are the ones asked for.
\<close>

definition slot_matches :: "cocofs \<Rightarrow> byte list \<Rightarrow> byte list \<Rightarrow> nat \<Rightarrow> bool" where
  "slot_matches fs name ext i =
     (d_type fs i \<noteq> COCOFS_DIRENT_TYPE_FREE \<and> d_name fs i = take 8 name \<and> d_ext fs i = take 3 ext)"

lemma lookup_raw_loop_step:
  "k < COCOFS_DIR_TRACK_NENTRIES \<Longrightarrow>
   lookup_raw_loop fs name ext k =
     (if slot_matches fs name ext k then Some k else lookup_raw_loop fs name ext (k + 1))"
  by (subst lookup_raw_loop.simps) (simp add: slot_matches_def)

lemma lookup_raw_loop_end:
  "\<not> k < COCOFS_DIR_TRACK_NENTRIES \<Longrightarrow> lookup_raw_loop fs name ext k = None"
  by (subst lookup_raw_loop.simps) simp

lemma lookup_raw_loop_Some:
  "lookup_raw_loop fs name ext k = Some i \<longleftrightarrow>
     k \<le> i \<and> i < COCOFS_DIR_TRACK_NENTRIES \<and> slot_matches fs name ext i \<and>
     (\<forall>j. k \<le> j \<and> j < i \<longrightarrow> \<not> slot_matches fs name ext j)"
proof (induction n \<equiv> "COCOFS_DIR_TRACK_NENTRIES - k" arbitrary: k)
  case 0
  then have "\<not> k < COCOFS_DIR_TRACK_NENTRIES" by simp
  then show ?case by (auto simp: lookup_raw_loop_end)
next
  case (Suc n)
  then have kl: "k < COCOFS_DIR_TRACK_NENTRIES" by simp
  show ?case
  proof (cases "slot_matches fs name ext k")
    case True
    have "(k \<le> i \<and> i < COCOFS_DIR_TRACK_NENTRIES \<and> slot_matches fs name ext i \<and>
          (\<forall>j. k \<le> j \<and> j < i \<longrightarrow> \<not> slot_matches fs name ext j)) \<longleftrightarrow> i = k"
    proof (cases "k < i")
      case lt: True
      have "\<not> (\<forall>j. k \<le> j \<and> j < i \<longrightarrow> \<not> slot_matches fs name ext j)"
        using lt True by blast
      with lt show ?thesis by simp
    next
      case False
      with True kl show ?thesis by auto
    qed
    moreover have "lookup_raw_loop fs name ext k = Some k"
      using True kl by (simp add: lookup_raw_loop_step)
    ultimately show ?thesis by (metis option.inject)
  next
    case False
    have ih: "lookup_raw_loop fs name ext (k + 1) = Some i \<longleftrightarrow>
         k + 1 \<le> i \<and> i < COCOFS_DIR_TRACK_NENTRIES \<and> slot_matches fs name ext i \<and>
         (\<forall>j. k + 1 \<le> j \<and> j < i \<longrightarrow> \<not> slot_matches fs name ext j)"
    proof (rule Suc.hyps(1))
      show "n = COCOFS_DIR_TRACK_NENTRIES - (k + 1)" using Suc.hyps(2) by linarith
    qed
    have a: "k + 1 \<le> i \<and> slot_matches fs name ext i \<longleftrightarrow> k \<le> i \<and> slot_matches fs name ext i"
      using False by (cases "i = k") auto
    have b: "(\<forall>j. k + 1 \<le> j \<and> j < i \<longrightarrow> \<not> slot_matches fs name ext j) \<longleftrightarrow>
             (\<forall>j. k \<le> j \<and> j < i \<longrightarrow> \<not> slot_matches fs name ext j)"
    proof
      assume h: "\<forall>j. k + 1 \<le> j \<and> j < i \<longrightarrow> \<not> slot_matches fs name ext j"
      show "\<forall>j. k \<le> j \<and> j < i \<longrightarrow> \<not> slot_matches fs name ext j"
      proof (intro allI impI)
        fix j assume j: "k \<le> j \<and> j < i"
        show "\<not> slot_matches fs name ext j"
        proof (cases "j = k")
          case True
          with False show ?thesis by simp
        next
          case False
          with j have "k + 1 \<le> j \<and> j < i" by simp
          with h show ?thesis by blast
        qed
      qed
    next
      assume "\<forall>j. k \<le> j \<and> j < i \<longrightarrow> \<not> slot_matches fs name ext j"
      then show "\<forall>j. k + 1 \<le> j \<and> j < i \<longrightarrow> \<not> slot_matches fs name ext j" by simp
    qed
    have "lookup_raw_loop fs name ext k = lookup_raw_loop fs name ext (k + 1)"
      using False kl by (simp add: lookup_raw_loop_step)
    then have "lookup_raw_loop fs name ext k = Some i \<longleftrightarrow>
         (k + 1 \<le> i \<and> slot_matches fs name ext i) \<and> i < COCOFS_DIR_TRACK_NENTRIES \<and>
         (\<forall>j. k \<le> j \<and> j < i \<longrightarrow> \<not> slot_matches fs name ext j)"
      using ih unfolding b by (simp add: conj_ac)
    then show ?thesis unfolding a by (simp add: conj_ac)
  qed
qed

lemma enumerate_loop_set:
  "di \<in> fst ` set (enumerate_loop fs k) \<longleftrightarrow>
     k \<le> di \<and> di < COCOFS_DIR_TRACK_NENTRIES \<and> \<not> d_type fs di > COCOFS_DIRENT_TYPE_TEXT"
proof (induction fs k rule: enumerate_loop.induct)
  case (1 fs k)
  show ?case
  proof (cases "k < COCOFS_DIR_TRACK_NENTRIES")
    case False
    then show ?thesis by (subst enumerate_loop.simps) auto
  next
    case True
    have *: "k \<le> di \<longleftrightarrow> di = k \<or> k + 1 \<le> di" by auto
    show ?thesis
      using True "1.IH" 
      by (subst enumerate_loop.simps) (auto simp: *)
  qed
qed

text \<open>
  C10.  \<^verbatim>\<open>cocofs_lookup_raw\<close> passes over a slot exactly when its type byte is 0xff, and
  gives the lowest slot that is left and carries the 8 name bytes and the 3 extension
  bytes asked for.  The listing counts a slot as a file exactly when its type byte is at
  most 0x03.  So a slot whose type byte is above 0x03 and is not 0xff is found by the
  lookup and is not listed.
\<close>

theorem lookup_raw_first_nonfree_match:
  "(cocofs_lookup_raw fs name ext = Some i \<longleftrightarrow>
      i < 72 \<and> slot_matches fs name ext i \<and> (\<forall>j<i. \<not> slot_matches fs name ext j)) \<and>
   (di \<in> fst ` set (cocofs_enumerate_directory fs) \<longleftrightarrow> di < 72 \<and> d_type fs di \<le> 0x03) \<and>
   (i < 72 \<and> 0x03 < d_type fs i \<and> d_type fs i \<noteq> 0xff \<and>
    d_name fs i = take 8 name \<and> d_ext fs i = take 3 ext \<and>
    (\<forall>j<i. \<not> slot_matches fs name ext j) \<longrightarrow>
      cocofs_lookup_raw fs name ext = Some i \<and> i \<notin> fst ` set (cocofs_enumerate_directory fs))"
proof -
  have A: "cocofs_lookup_raw fs name ext = Some i \<longleftrightarrow>
      i < 72 \<and> slot_matches fs name ext i \<and> (\<forall>j<i. \<not> slot_matches fs name ext j)" for i
    unfolding cocofs_lookup_raw_def lookup_raw_loop_Some
    by (simp add: COCOFS_DIR_TRACK_NENTRIES_def COCOFS_DIR_TRACK_NSEC_def
          COCOFS_BYTES_PER_SEC_def sizeof_dirent_def)
  have B: "di \<in> fst ` set (cocofs_enumerate_directory fs) \<longleftrightarrow> di < 72 \<and> d_type fs di \<le> 0x03" for di
    unfolding cocofs_enumerate_directory_def enumerate_loop_set
    by (simp add: COCOFS_DIR_TRACK_NENTRIES_def COCOFS_DIR_TRACK_NSEC_def
          COCOFS_BYTES_PER_SEC_def sizeof_dirent_def COCOFS_DIRENT_TYPE_TEXT_def not_less)
  have C: "i < 72 \<and> 0x03 < d_type fs i \<and> d_type fs i \<noteq> 0xff \<and>
    d_name fs i = take 8 name \<and> d_ext fs i = take 3 ext \<and>
    (\<forall>j<i. \<not> slot_matches fs name ext j) \<longrightarrow>
      cocofs_lookup_raw fs name ext = Some i \<and> i \<notin> fst ` set (cocofs_enumerate_directory fs)"
    unfolding A B by (simp add: slot_matches_def COCOFS_DIRENT_TYPE_FREE_def not_le)
  from A B C show ?thesis by blast
qed

definition odd_type_fs :: cocofs where
  "odd_type_fs = cocofs_format\<lparr>image_data := (image_data cocofs_format)(dirent_off 0 + 11 := 0x04)\<rparr>"

lemma upt8: "[0..<8] = [0,1,2,3,4,5,6,7]" by (simp add: upt_rec)
lemma upt3: "[0..<3] = [0,1,2]" by (simp add: upt_rec)

theorem lookup_raw_first_nonfree_match_witness:
  "cocofs_lookup_raw odd_type_fs [0xff,0xff,0xff,0xff,0xff,0xff,0xff,0xff] [0xff,0xff,0xff] = Some 0 \<and>
   0 \<notin> fst ` set (cocofs_enumerate_directory odd_type_fs)"
proof -
  have t: "d_type odd_type_fs 0 = 0x04"
    by (simp add: d_type_def odd_type_fs_def)
  have n: "d_name odd_type_fs 0 = take 8 [0xff,0xff,0xff,0xff,0xff,0xff,0xff,0xff]"
    by (simp add: d_name_def odd_type_fs_def cocofs_format_def cocofs_alloc_def read_bytes_def
          memset_bytes_def dirent_off_def cocofs_consts upt8)
  have e: "d_ext odd_type_fs 0 = take 3 [0xff,0xff,0xff]"
    by (simp add: d_ext_def odd_type_fs_def cocofs_format_def cocofs_alloc_def read_bytes_def
          memset_bytes_def dirent_off_def cocofs_consts upt3)
  show ?thesis
    using lookup_raw_first_nonfree_match
      [of odd_type_fs "[0xff,0xff,0xff,0xff,0xff,0xff,0xff,0xff]" "[0xff,0xff,0xff]" 0 0] t n e
    by simp
qed

section \<open>Walking a chain that has a cycle\<close>

lemma stat_loop_bound:
  "stat_loop fs lc g sz st = (sz', nsec, lc', st') \<Longrightarrow> lc \<le> 69 \<Longrightarrow>
     st' \<le> st + (69 - lc) \<and> lc' \<le> 69 \<and>
     (lc' = 69 \<longrightarrow> nsec = 0 \<and> sz' = sz + of_nat ((69 - lc) * 2304) \<and> st' = st + (69 - lc))"
proof (induction fs lc g sz st rule: stat_loop.induct)
  case (1 fs lc g sz st)
  show ?case
  proof (cases "lc \<le> 68")
    case False
    with "1.prems" have "lc = 69" by simp
    with "1.prems" show ?thesis
      by (subst (asm) stat_loop.simps) (simp add: cocofs_consts)
  next
    case True
    let ?gn = "granule_map fs (unat g)"
    show ?thesis
    proof (cases "\<not> gmap_entry_is_valid ?gn \<or> ?gn = GMAP_FREE")
      case stop: True
      with True "1.prems" show ?thesis
        by (subst (asm) stat_loop.simps) (auto simp: COCOFS_NGRANULES_def COCOFS_TRACKS_def
             COCOFS_GRANULES_PER_TRACK_def COCOFS_SEC_PER_TRACK_def COCOFS_SEC_PER_GRANULE_def)
    next
      case go: False
      show ?thesis
      proof (cases "GMAP_IS_LAST ?gn")
        case last: True
        with go True "1.prems" show ?thesis
          by (subst (asm) stat_loop.simps) (auto simp: COCOFS_NGRANULES_def COCOFS_TRACKS_def
             COCOFS_GRANULES_PER_TRACK_def COCOFS_SEC_PER_TRACK_def COCOFS_SEC_PER_GRANULE_def)
      next
        case False
        have lc: "lc \<le> COCOFS_NGRANULES" using True by (simp add: cocofs_consts)
        have rec: "stat_loop fs (lc + 1) ?gn (sz + of_nat (COCOFS_SEC_PER_GRANULE * COCOFS_BYTES_PER_SEC)) (st + 1)
                   = (sz', nsec, lc', st')"
          using "1.prems"(1) lc go False by (subst (asm) stat_loop.simps) (simp add: Let_def)
        have ih: "st' \<le> st + 1 + (69 - (lc + 1)) \<and> lc' \<le> 69 \<and>
           (lc' = 69 \<longrightarrow> nsec = 0 \<and>
              sz' = sz + of_nat (COCOFS_SEC_PER_GRANULE * COCOFS_BYTES_PER_SEC) + of_nat ((69 - (lc + 1)) * 2304) \<and>
              st' = st + 1 + (69 - (lc + 1)))"
          using "1.IH"[OF lc refl _ False rec] go True by simp
        have e: "(69 - lc) * 2304 = 2304 + (69 - (lc + 1)) * 2304" using True by simp
        have s1: "st + 1 + (69 - (lc + 1)) = st + (69 - lc)" using True by simp
        show ?thesis using ih unfolding e s1
          by (simp add: COCOFS_SEC_PER_GRANULE_def COCOFS_BYTES_PER_SEC_def)
      qed
    qed
  qed
qed

text \<open>A \<^verbatim>\<open>write\<close> that always takes the whole buffer.\<close>

definition full_writer :: writer where
  "full_writer out buf = int (length buf)"

text \<open>
  A formatted image in which granule 0 links to itself and the directory entry 0 has
  granule 0 as its first granule.
\<close>

definition cycle_fs :: cocofs where
  "cycle_fs = cocofs_format\<lparr>image_data :=
     (image_data cocofs_format)(granule_map_off + 0 := 0, dirent_off 0 + 13 := 0)\<rparr>"

lemma stat_loop_self_link:
  "granule_map fs 0 = 0 \<Longrightarrow> lc \<le> 69 \<Longrightarrow>
   stat_loop fs lc 0 sz st = (sz + of_nat ((69 - lc) * 2304), 0, 69, st + (69 - lc))"
proof (induction n \<equiv> "69 - lc" arbitrary: lc sz st)
  case 0
  then have "lc = 69" by simp
  then show ?case by (subst stat_loop.simps) (simp add: cocofs_consts)
next
  case (Suc n)
  then have lc: "lc \<le> 68" and n: "n = 69 - (lc + 1)" by simp_all
  have step: "stat_loop fs lc 0 sz st = stat_loop fs (lc + 1) 0 (sz + 2304) (st + 1)"
    using lc Suc.prems(1)
    by (subst stat_loop.simps)
       (simp add: cocofs_consts gmap_entry_is_valid_def GMAP_IS_LAST_def)
  have e: "(69 - lc) * 2304 = 2304 + (69 - (lc + 1)) * 2304" using lc by simp
  have s1: "st + 1 + (69 - (lc + 1)) = st + (69 - lc)" using lc by simp
  show ?case
    unfolding step using Suc.hyps(1)[OF n Suc.prems(1), of "sz + 2304" "st + 1"] lc
    unfolding e s1 by simp
qed

lemma copyout_loop_self_link:
  assumes "copyout_loop fs w out lc gi g = Some r"
  shows "\<not> (lc = 0 \<and> g = 0 \<and> granule_map fs 0 = 0 \<and> w = full_writer)"
proof (rule copyout_loop.raw_induct
    [where P = "\<lambda>fs w out lc gi g r. \<not> (lc = 0 \<and> g = 0 \<and> granule_map fs 0 = 0 \<and> w = full_writer)",
     OF _ assms])
  fix f :: "cocofs \<Rightarrow> writer \<Rightarrow> byte list \<Rightarrow> nat \<Rightarrow> nat \<Rightarrow> byte \<Rightarrow>
     ((copyout_error \<times> byte list) + (nat \<times> byte \<times> byte list)) option"
  fix fs w out lc gi g r
  assume IH: "\<And>fs w out lc gi g r. f fs w out lc gi g = Some r \<Longrightarrow>
           \<not> (lc = 0 \<and> g = 0 \<and> granule_map fs 0 = 0 \<and> w = full_writer)"
  assume body: "(if lc > COCOFS_NGRANULES then Some (Inl (CO_cycle, out))
      else if unat g \<ge> COCOFS_NGRANULES then Some (Inl (CO_invalid_granule, out))
      else if \<not> gmap_entry_is_valid (granule_map fs (unat g)) \<or>
              granule_map fs (unat g) = GMAP_FREE then Some (Inl (CO_invalid_entry, out))
      else if GMAP_IS_LAST (granule_map fs (unat g))
        then Some (Inr (unat (GMAP_LAST_NSEC (granule_map fs (unat g))), g, out))
      else if fst (sys_write w out (read_bytes (image_data fs)
                     (cocofs_granule_to_offset (unat g)) COCOFS_BYTES_PER_GRANULE))
                \<noteq> int COCOFS_BYTES_PER_GRANULE
        then Some (Inl (CO_write, snd (sys_write w out (read_bytes (image_data fs)
                     (cocofs_granule_to_offset (unat g)) COCOFS_BYTES_PER_GRANULE))))
      else f fs w
             (snd (sys_write w out (read_bytes (image_data fs)
                     (cocofs_granule_to_offset (unat g)) COCOFS_BYTES_PER_GRANULE)))
             lc (gi + 1) (granule_map fs (unat g))) = Some r"
  show "\<not> (lc = 0 \<and> g = 0 \<and> granule_map fs 0 = 0 \<and> w = full_writer)"
  proof
    assume a: "lc = 0 \<and> g = 0 \<and> granule_map fs 0 = 0 \<and> w = full_writer"
    let ?out = "snd (sys_write w out (read_bytes (image_data fs)
                     (cocofs_granule_to_offset (unat g)) COCOFS_BYTES_PER_GRANULE))"
    have "f fs w ?out lc (gi + 1) (granule_map fs (unat g)) = Some r"
      using body a
      by (simp add: cocofs_consts gmap_entry_is_valid_def GMAP_IS_LAST_def sys_write_def
            full_writer_def read_bytes_def)
    from IH[OF this] a show False by simp
  qed
qed


lemma cycle_fs_link: "granule_map cycle_fs 0 = 0"
  by (simp add: cycle_fs_def granule_map_def dirent_off_def cocofs_consts)

lemma cycle_fs_head: "d_first_granule cycle_fs 0 = 0"
  by (simp add: cycle_fs_def d_first_granule_def)

text \<open>
  C2, as amended.  For every granule map and every head granule the walk of
  \<^verbatim>\<open>cocofs_stat\<close> enters its loop body at most 69 times.  When the bound is used up
  the walk just ends: \<^verbatim>\<open>last_nsec\<close> is 0 and the size is 69 granules, 158976 bytes,
  which is what \<^verbatim>\<open>cocofs_stat\<close> then gives as \<^verbatim>\<open>st_size\<close>; the function has no
  way to report an error.  Nothing is said here about \<^verbatim>\<open>cocofs_copyout\<close>.
\<close>

theorem stat_walk_bounded:
  "stat_loop fs 0 g 0 0 = (sz, nsec, lc, steps) \<Longrightarrow>
     steps \<le> 69 \<and> lc \<le> 69 \<and>
     (lc = 69 \<longrightarrow> steps = 69 \<and> nsec = 0 \<and> sz = 158976 \<and>
        (g = d_first_granule fs dir \<longrightarrow> st_size (cocofs_stat fs dir) = 158976))"
proof -
  assume a: "stat_loop fs 0 g 0 0 = (sz, nsec, lc, steps)"
  from stat_loop_bound[OF a] have b: "steps \<le> 69" "lc \<le> 69"
    "lc = 69 \<longrightarrow> nsec = 0 \<and> sz = 158976 \<and> steps = 69"
    by simp_all
  have "st_size (cocofs_stat fs dir) = 158976" if "lc = 69" "g = d_first_granule fs dir"
    using that a b(3) by (simp add: cocofs_stat_def stat_size_def)
  with b show ?thesis by blast
qed

theorem stat_walk_bounded_witness:
  "stat_loop cycle_fs 0 0 0 0 = (158976, 0, 69, 69) \<and> st_size (cocofs_stat cycle_fs 0) = 158976"
proof -
  have a: "stat_loop cycle_fs 0 0 0 0 = (158976, 0, 69, 69)"
    using stat_loop_self_link[OF cycle_fs_link, of 0 0 0] by simp
  from stat_walk_bounded[OF a, of 0] cycle_fs_head a show ?thesis by simp
qed

text \<open>
  C2 as stated fails on \<open>cycle_fs\<close>: the walk of \<^verbatim>\<open>cocofs_copyout\<close> never returns
  when every write succeeds (its \<^verbatim>\<open>loopcnt\<close> stays 0, so the cycle test is never true),
  and \<^verbatim>\<open>cocofs_stat\<close> returns a size above the 68 granules of the disk with no
  sign of the cycle.
\<close>

theorem cyclic_chain_counterexample:
  "cocofs_copyout cycle_fs 0 True full_writer = None \<and>
   st_size (cocofs_stat cycle_fs 0) = 158976 \<and> st_size (cocofs_stat cycle_fs 0) > 68 * 2304"
proof -
  have "copyout_loop cycle_fs full_writer [] 0 0 0 = None"
    using copyout_loop_self_link[of cycle_fs full_writer "[]" 0 0 0] cycle_fs_link
    by (cases "copyout_loop cycle_fs full_writer [] 0 0 0") auto
  then have c: "cocofs_copyout cycle_fs 0 True full_writer = None"
    by (simp add: cocofs_copyout_def cycle_fs_head)
  have "stat_loop cycle_fs 0 0 0 0 = (158976, 0, 69, 69)"
    using stat_loop_self_link[OF cycle_fs_link, of 0 0 0] by simp
  then have "st_size (cocofs_stat cycle_fs 0) = 158976"
    by (simp add: cocofs_stat_def stat_size_def cycle_fs_head)
  with c show ?thesis by simp
qed

section \<open>A remove that meets a broken chain\<close>

lemma read_bytes_cong:
  "(\<And>k. k < n \<Longrightarrow> m1 (off + k) = m2 (off + k)) \<Longrightarrow> read_bytes m1 off n = read_bytes m2 off n"
  by (simp add: read_bytes_def)











section \<open>Allocation finds a free granule\<close>

lemma galloc_loop_found:
  "g < 68 \<Longrightarrow> lc + d \<le> 68 \<Longrightarrow> granule_map fs ((g + d) mod 68) = GMAP_FREE \<Longrightarrow>
   (\<forall>e<d. granule_map fs ((g + e) mod 68) \<noteq> GMAP_FREE) \<Longrightarrow>
   galloc_loop fs lc g =
     Some ((g + d) mod 68,
           (set_granule_map fs ((g + d) mod 68) GMAP_ALLOCATED)\<lparr>free_granules := free_granules fs - 1\<rparr>,
           lc + d + 1)"
proof (induction d arbitrary: g lc)
  case 0
  then show ?case by (subst galloc_loop.simps) (simp add: cocofs_consts)
next
  case (Suc d)
  let ?g' = "if g + 1 = COCOFS_NGRANULES then 0 else g + 1"
  have g': "?g' = (g + 1) mod 68" "?g' < 68" using Suc.prems(1) by (auto simp: cocofs_consts)
  have nf: "granule_map fs g \<noteq> GMAP_FREE" using Suc.prems(4)[rule_format, of 0] Suc.prems(1) by simp
  have step: "galloc_loop fs lc g = galloc_loop fs (lc + 1) ?g'"
    using nf Suc.prems(2) by (subst galloc_loop.simps) (simp add: cocofs_consts)
  have sh: "(Suc g mod 68 + e) mod 68 = Suc (g + e) mod 68" for e
    by (simp add: mod_add_left_eq)
  have "galloc_loop fs (lc + 1) ((g + 1) mod 68) =
     Some (((g + 1) mod 68 + d) mod 68,
           (set_granule_map fs (((g + 1) mod 68 + d) mod 68) GMAP_ALLOCATED)\<lparr>free_granules := free_granules fs - 1\<rparr>,
           lc + 1 + d + 1)"
  proof (rule Suc.IH)
    show "(g + 1) mod 68 < 68" by simp
    show "lc + 1 + d \<le> 68" using Suc.prems(2) by simp
    show "granule_map fs (((g + 1) mod 68 + d) mod 68) = GMAP_FREE" using Suc.prems(3) by (simp add: sh)
    show "\<forall>e<d. granule_map fs (((g + 1) mod 68 + e) mod 68) \<noteq> GMAP_FREE"
    proof (intro allI impI)
      fix e assume "e < d"
      then have "Suc e < Suc d" by simp
      from Suc.prems(4)[rule_format, OF this]
      have "granule_map fs ((g + Suc e) mod 68) \<noteq> GMAP_FREE" .
      then show "granule_map fs (((g + 1) mod 68 + e) mod 68) \<noteq> GMAP_FREE" by (simp add: sh)
    qed
  qed
  then show ?case unfolding step g'(1) by (simp add: sh)
qed

lemma galloc_free_exists:
  assumes "lastg < 68" and "h < 68" and "granule_map fs h = GMAP_FREE"
  shows "\<exists>d<68. granule_map fs ((lastg + d) mod 68) = GMAP_FREE \<and>
           (\<forall>e<d. granule_map fs ((lastg + e) mod 68) \<noteq> GMAP_FREE)"
proof -
  let ?P = "\<lambda>d. granule_map fs ((lastg + d) mod 68) = GMAP_FREE"
  let ?dz = "(h + 68 - lastg) mod 68"
  have "(lastg + ?dz) mod 68 = h"
    using assms(1,2) by (simp add: mod_add_right_eq)
  then have P0: "?P ?dz" using assms(3) by simp
  let ?dm = "LEAST d. ?P d"
  have "?P ?dm" using P0 by (rule LeastI)
  moreover have "?dm \<le> ?dz" using P0 by (rule Least_le)
  moreover have "\<forall>e<?dm. \<not> ?P e" using not_less_Least by blast
  moreover have "?dz < 68" by simp
  ultimately show ?thesis by (intro exI[of _ ?dm]) auto
qed


lemma galloc_loop_Some:
  "galloc_loop fs lc g = Some (r, fs', p) \<Longrightarrow> g < 68 \<Longrightarrow>
     r < 68 \<and> granule_map fs r = GMAP_FREE \<and> p \<le> 69 \<and>
     fs' = (set_granule_map fs r GMAP_ALLOCATED)\<lparr>free_granules := free_granules fs - 1\<rparr>"
proof (induction fs lc g rule: galloc_loop.induct)
  case (1 fs lc g)
  show ?case
  proof (cases "lc \<le> COCOFS_NGRANULES")
    case False
    with "1.prems" show ?thesis by (subst (asm) galloc_loop.simps) simp
  next
    case True
    show ?thesis
    proof (cases "granule_map fs g = GMAP_FREE")
      case f: True
      with True "1.prems" show ?thesis
        by (subst (asm) galloc_loop.simps) (auto simp: cocofs_consts)
    next
      case False
      let ?g' = "if g + 1 = COCOFS_NGRANULES then 0 else g + 1"
      have "galloc_loop fs (lc + 1) ?g' = Some (r, fs', p)"
        using "1.prems"(1) True False by (subst (asm) galloc_loop.simps) simp
      moreover have "?g' < 68" using "1.prems"(2) by (auto simp: cocofs_consts)
      ultimately show ?thesis using "1.IH"[OF True False] by blast
    qed
  qed
qed

text \<open>The number of free entries of the granule map.\<close>

definition count_free :: "cocofs \<Rightarrow> nat" where
  "count_free fs = card {h. h < 68 \<and> granule_map fs h = GMAP_FREE}"

lemma count_free_le: "count_free fs \<le> 68"
proof -
  have "card {h. h < 68 \<and> granule_map fs h = GMAP_FREE} \<le> card {..<68::nat}"
    by (rule card_mono) auto
  then show ?thesis by (simp add: count_free_def)
qed

lemma count_free_pos: "0 < count_free fs \<Longrightarrow> \<exists>h<68. granule_map fs h = GMAP_FREE"
proof -
  assume "0 < count_free fs"
  then have "{h. h < 68 \<and> granule_map fs h = GMAP_FREE} \<noteq> {}"
    unfolding count_free_def by (metis card.empty less_nat_zero_code)
  then show ?thesis by auto
qed

lemma count_free_alloc:
  assumes "g < 68" and "granule_map fs g = GMAP_FREE"
  shows "count_free ((set_granule_map fs g GMAP_ALLOCATED)\<lparr>free_granules := f\<rparr>) = count_free fs - 1"
proof -
  let ?A = "{h. h < 68 \<and> granule_map fs h = GMAP_FREE}"
  let ?fs' = "(set_granule_map fs g GMAP_ALLOCATED)\<lparr>free_granules := f\<rparr>"
  have eq: "{h. h < 68 \<and> granule_map ?fs' h = GMAP_FREE} = ?A - {g}"
    by (auto simp: granule_map_def set_granule_map_def GMAP_FREE_def GMAP_ALLOCATED_def)
  have "finite ?A" by simp
  moreover have "g \<in> ?A" using assms by simp
  ultimately have "card (?A - {g}) = card ?A - 1" by simp
  then show ?thesis unfolding count_free_def eq .
qed

lemma cocofs_galloc_succeeds:
  assumes "lastg < 68" and "\<exists>h<68. granule_map fs h = GMAP_FREE"
  shows "\<exists>g probes. cocofs_galloc fs lastg =
           Some (g, (set_granule_map fs g GMAP_ALLOCATED)\<lparr>free_granules := free_granules fs - 1\<rparr>, probes) \<and>
           probes \<le> 69 \<and> g < 68 \<and> granule_map fs g = GMAP_FREE"
proof -
  from assms obtain h where h: "h < 68" "granule_map fs h = GMAP_FREE" by blast
  from galloc_free_exists[OF assms(1) h] obtain d where d: "d < 68"
    "granule_map fs ((lastg + d) mod 68) = GMAP_FREE"
    "\<forall>e<d. granule_map fs ((lastg + e) mod 68) \<noteq> GMAP_FREE" by blast
  have "galloc_loop fs 0 lastg =
     Some ((lastg + d) mod 68,
           (set_granule_map fs ((lastg + d) mod 68) GMAP_ALLOCATED)\<lparr>free_granules := free_granules fs - 1\<rparr>,
           0 + d + 1)"
    using assms(1) d by (intro galloc_loop_found) simp_all
  then show ?thesis using d unfolding cocofs_galloc_def
    by (intro exI[of _ "(lastg + d) mod 68"] exI[of _ "0 + d + 1"]) simp
qed

lemma alloc_loop_succeeds:
  "k - gi \<le> count_free fs \<Longrightarrow> gi + count_free fs \<le> 68 \<Longrightarrow> length glist = 68 \<Longrightarrow> lastg < 68 \<Longrightarrow>
   \<exists>r. alloc_loop fs glist lastg gi k = Some r"
proof (induction n \<equiv> "k - gi" arbitrary: fs glist lastg gi)
  case 0
  then show ?case by (subst alloc_loop.simps) simp
next
  case (Suc n)
  then have lt: "gi < k" and pos: "0 < count_free fs" by simp_all
  from cocofs_galloc_succeeds[OF Suc.prems(4) count_free_pos[OF pos]]
  obtain g probes where g: "cocofs_galloc fs lastg =
           Some (g, (set_granule_map fs g GMAP_ALLOCATED)\<lparr>free_granules := free_granules fs - 1\<rparr>, probes)"
     "g < 68" "granule_map fs g = GMAP_FREE" by blast
  let ?fs1 = "(set_granule_map fs g GMAP_ALLOCATED)\<lparr>free_granules := free_granules fs - 1\<rparr>"
  have cf: "count_free ?fs1 = count_free fs - 1" using g(2,3) by (rule count_free_alloc)
  have gil: "gi < length glist" using Suc.prems(2,3) pos by simp
  have step: "alloc_loop fs glist lastg gi k = alloc_loop ?fs1 (glist[gi := of_nat g]) g (gi + 1) k"
    using lt gil by (subst alloc_loop.simps) (simp add: g(1))
  have "\<exists>r. alloc_loop ?fs1 (glist[gi := of_nat g]) g (gi + 1) k = Some r"
  proof (rule Suc.hyps(1))
    show "n = k - (gi + 1)" using Suc.hyps(2) by simp
    show "k - (gi + 1) \<le> count_free ?fs1" using Suc.prems(1) cf by simp
    show "gi + 1 + count_free ?fs1 \<le> 68" using Suc.prems(2) cf pos by simp
    show "length (glist[gi := of_nat g]) = 68" using Suc.prems(3) by simp
    show "g < 68" by (rule g(2))
  qed
  then show ?case unfolding step .
qed


lemma ceil_div_2304:
  "L div 2304 + (if L mod 2304 \<noteq> 0 then 1 else 0) = (L + 2303) div (2304::nat)"
proof -
  have r: "L mod 2304 < 2304" by simp
  have "L + 2303 = 2304 * (L div 2304) + (L mod 2304 + 2303)"
    by (simp only: add.assoc[symmetric] mult_div_mod_eq)
  also have "\<dots> div 2304 = L div 2304 + (L mod 2304 + 2303) div 2304"
    by (rule div_mult_self4) simp
  finally have "(L + 2303) div 2304 = L div 2304 + (L mod 2304 + 2303) div 2304" .
  moreover have "(L mod 2304 + 2303) div 2304 = (if L mod 2304 \<noteq> 0 then 1 else 0)"
  proof (cases "L mod 2304 = 0")
    case True
    then show ?thesis by simp
  next
    case False
    then have "2304 \<le> L mod 2304 + 2303" "L mod 2304 + 2303 < 2 * 2304" using r by simp_all
    then have "(L mod 2304 + 2303) div 2304 = 1"
      by (intro div_nat_eqI) simp_all
    with False show ?thesis by simp
  qed
  ultimately show ?thesis by simp
qed

lemma ceil_div_2304_le: "L \<le> f * 2304 \<Longrightarrow> (L + 2303) div 2304 \<le> (f::nat)"
proof -
  assume "L \<le> f * 2304"
  then have "L + 2303 < (f + 1) * 2304" by simp
  then have "(L + 2303) div 2304 < f + 1"
    by (simp add: less_mult_imp_div_less)
  then show ?thesis by simp
qed

lemma granules_needed_for_small:
  "L < 2 ^ 32 \<Longrightarrow> granules_needed_for L = (L + 2303) div 2304"
proof -
  assume L: "L < 2 ^ 32"
  have "L div 2304 \<le> L" by (rule div_le_dividend)
  from this L have a: "L div 2304 < 2 ^ 32" by (rule le_less_trans)
  have "(L + 2303) div 2304 \<le> (4294967295 + 2303) div 2304"
    using L by (intro div_le_mono) simp
  then have c: "(L + 2303) div 2304 < 2 ^ 32" by simp
  have "granules_needed_for L =
     ((L div 2304) mod 2 ^ 32 + (if L mod 2304 \<noteq> 0 then 1 else 0)) mod 2 ^ 32"
    by (simp add: granules_needed_for_def cocofs_consts)
  also have "\<dots> = (L div 2304 + (if L mod 2304 \<noteq> 0 then 1 else 0)) mod 2 ^ 32"
    using a by (simp only: mod_less)
  also have "\<dots> = (L + 2303) div 2304"
    unfolding ceil_div_2304 using c by (simp only: mod_less)
  finally show ?thesis .
qed

lemma capacity_check_bound:
  assumes "L \<le> unat (f * of_nat COCOFS_BYTES_PER_GRANULE)" 
  shows "L < 2 ^ 32" and "granules_needed_for L \<le> unat (f :: 32 word)"
proof -
  have "unat (f * of_nat COCOFS_BYTES_PER_GRANULE) < 2 ^ 32"
    using unsigned_less[of "f * of_nat COCOFS_BYTES_PER_GRANULE", where 'a=nat] by simp
  with assms show L: "L < 2 ^ 32" by simp
  have m: "unat (f * of_nat COCOFS_BYTES_PER_GRANULE) = (unat f * 2304) mod 2 ^ 32"
    by (simp add: unat_word_ariths cocofs_consts)
  show "granules_needed_for L \<le> unat f"
  proof (cases "unat f * 2304 < 2 ^ 32")
    case True
    then have "L \<le> unat f * 2304" using assms m by simp
    then show ?thesis unfolding granules_needed_for_small[OF L] by (rule ceil_div_2304_le)
  next
    case False
    have "unat f \<ge> 1864136"
    proof (rule ccontr)
      assume "\<not> 1864136 \<le> unat f"
      then have "unat f \<le> 1864135" by simp
      then have "unat f * 2304 \<le> 1864135 * 2304" by (rule mult_le_mono1)
      with False show False by simp
    qed
    moreover have "(L + 2303) div 2304 \<le> (4294967295 + 2303) div 2304"
      using L by (intro div_le_mono) simp
    ultimately show ?thesis unfolding granules_needed_for_small[OF L] by simp
  qed
qed

lemma format_gmap: "h < 68 \<Longrightarrow> granule_map cocofs_format h = GMAP_FREE"
  by (simp add: granule_map_def cocofs_format_def cocofs_alloc_def memset_bytes_def cocofs_consts)

lemma format_count_free: "count_free cocofs_format = 68"
proof -
  have "{h. h < 68 \<and> granule_map cocofs_format h = GMAP_FREE} = {..<68}"
    by (auto simp: format_gmap)
  then show ?thesis by (simp add: count_free_def)
qed

text \<open>
  C6.  When the granule map has a free entry, \<^verbatim>\<open>cocofs_galloc\<close>, started at any index
  from 0 to 67, returns after at most 69 probes a granule whose entry was free, marks
  that entry allocated and takes one from the count of free granules; the
  \<^verbatim>\<open>abort()\<close> is not reached.  Hence, in a state whose count of free granules does not
  exceed the number of free entries of the map, the allocation loop of an add that
  passed the capacity check runs to its end.
\<close>

theorem galloc_finds_free_granule:
  "(lastg < 68 \<and> (\<exists>h<68. granule_map fs h = GMAP_FREE) \<longrightarrow>
      (\<exists>g probes. cocofs_galloc fs lastg =
           Some (g, (set_granule_map fs g GMAP_ALLOCATED)\<lparr>free_granules := free_granules fs - 1\<rparr>, probes) \<and>
           probes \<le> 69 \<and> g < 68 \<and> granule_map fs g = GMAP_FREE)) \<and>
   (unat (free_granules fs) \<le> count_free fs \<and>
    L \<le> unat (free_granules fs * of_nat COCOFS_BYTES_PER_GRANULE) \<longrightarrow>
      (\<exists>r. alloc_loop fs (replicate COCOFS_NGRANULES 0xff) (COCOFS_NGRANULES div 2) 0
              (granules_needed_for L) = Some r))"
proof (intro conjI impI)
  assume "lastg < 68 \<and> (\<exists>h<68. granule_map fs h = GMAP_FREE)"
  then show "\<exists>g probes. cocofs_galloc fs lastg =
           Some (g, (set_granule_map fs g GMAP_ALLOCATED)\<lparr>free_granules := free_granules fs - 1\<rparr>, probes) \<and>
           probes \<le> 69 \<and> g < 68 \<and> granule_map fs g = GMAP_FREE"
    using cocofs_galloc_succeeds by blast
next
  assume a: "unat (free_granules fs) \<le> count_free fs \<and>
    L \<le> unat (free_granules fs * of_nat COCOFS_BYTES_PER_GRANULE)"
  then have "granules_needed_for L \<le> count_free fs"
    using capacity_check_bound(2)[of L "free_granules fs"] by simp
  then show "\<exists>r. alloc_loop fs (replicate COCOFS_NGRANULES 0xff) (COCOFS_NGRANULES div 2) 0
              (granules_needed_for L) = Some r"
    using count_free_le[of fs]
    by (intro alloc_loop_succeeds) (simp_all add: cocofs_consts)
qed

theorem galloc_finds_free_granule_witness:
  "(\<exists>g probes. cocofs_galloc cocofs_format 34 =
           Some (g, (set_granule_map cocofs_format g GMAP_ALLOCATED)\<lparr>free_granules := 67\<rparr>, probes) \<and>
           probes \<le> 69 \<and> g < 68 \<and> granule_map cocofs_format g = GMAP_FREE) \<and>
   (\<exists>r. alloc_loop cocofs_format (replicate COCOFS_NGRANULES 0xff) (COCOFS_NGRANULES div 2) 0
              (granules_needed_for 5000) = Some r)"
proof -
  have a: "(34::nat) < 68 \<and> (\<exists>h<68. granule_map cocofs_format h = GMAP_FREE)"
  proof
    show "(34::nat) < 68" by simp
    have "(0::nat) < 68 \<and> granule_map cocofs_format 0 = GMAP_FREE" using format_gmap[of 0] by simp
    then show "\<exists>h<68. granule_map cocofs_format h = GMAP_FREE" by blast
  qed
  have f: "free_granules cocofs_format = 68" by (simp add: cocofs_format_def cocofs_consts)
  have b: "unat (free_granules cocofs_format) \<le> count_free cocofs_format \<and>
    5000 \<le> unat (free_granules cocofs_format * of_nat COCOFS_BYTES_PER_GRANULE)"
    by (simp add: f format_count_free cocofs_consts)
  from galloc_finds_free_granule[of 34 cocofs_format 5000] a b show ?thesis by (simp add: f)
qed

section \<open>The capacity check and the empty file\<close>

lemma length_read_bytes [simp]: "length (read_bytes m off n) = n"
  by (simp add: read_bytes_def)

lemma nth_read_bytes [simp]: "k < n \<Longrightarrow> read_bytes m off n ! k = m (off + k)"
  by (simp add: read_bytes_def)

lemma write_read_bytes_same: "write_bytes m off (read_bytes m off n) = m"
  by (rule ext) (auto simp: write_bytes_def)

lemma copyin_bad_no_slot:
  "copyin_bad fs (read_bytes (image_data fs) granule_map_off n) (free_granules fs) None e
     = Copyin_failed e fs"
  by (simp add: copyin_bad_def write_read_bytes_same)

lemma alloc_loop_none_needed: "alloc_loop fs glist lastg gi 0 = Some (fs, glist)"
  by (subst alloc_loop.simps) simp

lemma write_loop_nothing_left:
  "write_loop fs src dir glist granules_needed name ext type enc gi 0 = Write_done fs"
  by (subst write_loop.simps) simp

lemma granules_needed_for_0: "granules_needed_for 0 = 0"
  by (simp add: granules_needed_for_def)

text \<open>
  C7.  With the source opened and \<^verbatim>\<open>fstat\<close> giving the length \<open>L\<close>, and a count of
  free granules \<open>f\<close> small enough for the \<^verbatim>\<open>unsigned int\<close> product \<open>f * 2304\<close> not to
  wrap (at most 68 granules can be free), the add fails with the capacity error
  exactly when \<open>L > f * 2304\<close>, that is when the number of granules needed, \<open>L\<close>
  divided by 2304 and rounded up, exceeds \<open>f\<close>; the state after that failure is the
  state before, so no granule is allocated and no directory entry is touched.
\<close>

theorem copyin_capacity_check:
  assumes "in_open_ok src" and "in_fstat src = Some L"
    and "unat (free_granules fs) * 2304 < 2 ^ 32"
  shows "((\<exists>fs'. cocofs_copyin fs src name ext type enc = Copyin_failed CI_nospace fs') \<longleftrightarrow>
            unat (free_granules fs) * 2304 < L) \<and>
         (unat (free_granules fs) * 2304 < L \<longleftrightarrow> unat (free_granules fs) < (L + 2303) div 2304) \<and>
         (\<forall>fs'. cocofs_copyin fs src name ext type enc = Copyin_failed CI_nospace fs' \<longrightarrow> fs' = fs)"
proof -
  have m: "unat (free_granules fs * of_nat COCOFS_BYTES_PER_GRANULE) = unat (free_granules fs) * 2304"
    using assms(3) by (simp add: unat_word_ariths cocofs_consts)
  have big: "cocofs_copyin fs src name ext type enc = Copyin_failed CI_nospace fs"
    if "unat (free_granules fs) * 2304 < L"
    using that assms(1,2) by (simp add: cocofs_copyin_def Let_def m copyin_bad_no_slot)
  have small: "cocofs_copyin fs src name ext type enc \<noteq> Copyin_failed CI_nospace fs'"
    if "\<not> unat (free_granules fs) * 2304 < L" for fs'
    using that assms(1,2)
    by (simp add: cocofs_copyin_def Let_def m copyin_bad_def
          split: option.splits prod.splits write_result.splits)
  have ceil: "unat (free_granules fs) * 2304 < L \<longleftrightarrow> unat (free_granules fs) < (L + 2303) div 2304"
  proof
    assume "unat (free_granules fs) * 2304 < L"
    then have "(unat (free_granules fs) + 1) * 2304 \<le> L + 2303" by simp
    then have "unat (free_granules fs) + 1 \<le> (L + 2303) div 2304"
      by (simp add: less_eq_div_iff_mult_less_eq)
    then show "unat (free_granules fs) < (L + 2303) div 2304" by simp
  next
    assume a: "unat (free_granules fs) < (L + 2303) div 2304"
    show "unat (free_granules fs) * 2304 < L"
    proof (rule ccontr)
      assume "\<not> unat (free_granules fs) * 2304 < L"
      then have "L \<le> unat (free_granules fs) * 2304" by simp
      from ceil_div_2304_le[OF this] a show False by simp
    qed
  qed
  from big small ceil show ?thesis by (metis copyin_result.inject(1))
qed

theorem copyin_capacity_check_witness:
  "cocofs_copyin cocofs_format
      \<lparr>in_open_ok = True, in_fstat = Some 200000, in_pread = (\<lambda>off n. None)\<rparr> [] [] 1 0
        = Copyin_failed CI_nospace cocofs_format \<and>
   unat (free_granules cocofs_format) < (200000 + 2303) div 2304"
proof -
  have f: "free_granules cocofs_format = 68" by (simp add: cocofs_format_def cocofs_consts)
  from copyin_capacity_check[of "\<lparr>in_open_ok = True, in_fstat = Some 200000, in_pread = (\<lambda>off n. None)\<rparr>"
       200000 cocofs_format "[]" "[]" 1 0]
  have "\<exists>fs'. cocofs_copyin cocofs_format
      \<lparr>in_open_ok = True, in_fstat = Some 200000, in_pread = (\<lambda>off n. None)\<rparr> [] [] 1 0
        = Copyin_failed CI_nospace fs'"
    and "\<forall>fs'. cocofs_copyin cocofs_format
      \<lparr>in_open_ok = True, in_fstat = Some 200000, in_pread = (\<lambda>off n. None)\<rparr> [] [] 1 0
        = Copyin_failed CI_nospace fs' \<longrightarrow> fs' = cocofs_format"
    by (simp_all add: f)
  then show ?thesis by (auto simp: f)
qed

text \<open>
  C9.  For a source of length zero that can be opened, an add that finds a free
  directory entry returns success and leaves the whole state as it was: no granule is
  allocated, the entry found is not written, the count of free granules and every byte
  of the image are as before.  (Without a free entry the add fails with the
  directory-full error, and the state is as before as well.)
\<close>

theorem copyin_empty_file:
  "in_open_ok src \<Longrightarrow> in_fstat src = Some 0 \<Longrightarrow>
     (find_free_dirent fs 0 \<noteq> None \<longrightarrow>
        cocofs_copyin fs src name ext type enc = Copyin_ok fs) \<and>
     (find_free_dirent fs 0 = None \<longrightarrow>
        cocofs_copyin fs src name ext type enc = Copyin_failed CI_nodir fs)"
  by (auto simp: cocofs_copyin_def Let_def granules_needed_for_0 alloc_loop_none_needed
       write_loop_nothing_left copyin_bad_no_slot)

theorem copyin_empty_file_witness:
  "cocofs_copyin cocofs_format \<lparr>in_open_ok = True, in_fstat = Some 0, in_pread = (\<lambda>off n. Some [])\<rparr>
     [] [] 1 0 = Copyin_ok cocofs_format"
proof -
  have "find_free_dirent cocofs_format 0 = Some 0"
    by (subst find_free_dirent.simps)
       (simp add: d_type_def dirent_off_def cocofs_format_def cocofs_alloc_def memset_bytes_def cocofs_consts)
  then show ?thesis
    using copyin_empty_file[of "\<lparr>in_open_ok = True, in_fstat = Some 0, in_pread = (\<lambda>off n. Some [])\<rparr>"
       cocofs_format "[]" "[]" 1 0]
    by simp
qed

section \<open>Where the granules lie\<close>

lemma granule_to_offset_eq:
  "cocofs_granule_to_offset g = 2304 * (if g \<ge> 34 then g + 2 else g)"
proof -
  have "g mod 2 = (if odd g then 1 else 0)" by (simp add: odd_iff_mod_2_eq_one)
  then have e: "g = 2 * (g div 2) + (if odd g then 1 else 0)"
    using mult_div_mod_eq[of 2 g] by simp
  have t: "(g div 2 \<ge> 17) = (g \<ge> 34)" by auto
  have "cocofs_granule_to_offset g =
      (if g div 2 \<ge> 17 then g div 2 + 1 else g div 2) * 4608 + (if odd g then 2304 else 0)"
    by (simp add: cocofs_granule_to_offset_def cocofs_granule_to_track_def Let_def cocofs_consts)
  also have "\<dots> = 2304 * (2 * (g div 2) + (if odd g then 1 else 0)) + (if g \<ge> 34 then 4608 else 0)"
    unfolding t by simp
  also have "\<dots> = 2304 * g + (if g \<ge> 34 then 4608 else 0)"
    using e by simp
  finally show ?thesis by simp
qed


text \<open>The bytes of a granule, and the first 16 bytes of a directory entry.\<close>

definition gran_region :: "nat \<Rightarrow> nat set" where
  "gran_region g = {a. cocofs_granule_to_offset g \<le> a \<and> a < cocofs_granule_to_offset g + 2304}"

lemma gran_region_not_dir_track: "a \<in> gran_region g \<Longrightarrow> a < 78336 \<or> 82944 \<le> a"
  unfolding gran_region_def granule_to_offset_eq by (auto split: if_splits)

lemma gran_region_disjoint: "g \<noteq> g' \<Longrightarrow> a \<in> gran_region g \<Longrightarrow> a \<notin> gran_region g'"
  unfolding gran_region_def granule_to_offset_eq by (auto split: if_splits)

section \<open>What the allocation loop leaves\<close>

lemma unat_byte_of_nat: "g < 256 \<Longrightarrow> unat (of_nat g :: byte) = g"
  by (simp add: unat_of_nat)

lemma alloc_loop_result:
  "alloc_loop fs gl0 lastg gi k = Some (fs', gl) \<Longrightarrow> length gl0 = 68 \<Longrightarrow> lastg < 68 \<Longrightarrow>
     length gl = 68 \<and> (gi < k \<longrightarrow> k \<le> 68) \<and>
     (\<forall>i<gi. gl ! i = gl0 ! i) \<and>
     (\<forall>i. gi \<le> i \<and> i < k \<longrightarrow> unat (gl ! i) < 68 \<and> granule_map fs (unat (gl ! i)) = GMAP_FREE \<and>
          granule_map fs' (unat (gl ! i)) = GMAP_ALLOCATED) \<and>
     (\<forall>i j. gi \<le> i \<and> i < j \<and> j < k \<longrightarrow> gl ! i \<noteq> gl ! j) \<and>
     free_granules fs' = free_granules fs - of_nat (k - gi) \<and>
     (\<forall>a. (\<forall>i. gi \<le> i \<and> i < k \<longrightarrow> a \<noteq> granule_map_off + unat (gl ! i)) \<longrightarrow>
          image_data fs' a = image_data fs a)"
proof (induction n \<equiv> "k - gi" arbitrary: fs gl0 lastg gi)
  case 0
  then have "\<not> gi < k" by simp
  with "0.prems"(1) have "fs' = fs" "gl = gl0" by (subst (asm) alloc_loop.simps, simp)+
  with \<open>\<not> gi < k\<close> "0.prems"(2) show ?case by auto
next
  case (Suc n)
  then have lt: "gi < k" by simp
  obtain g fs1 p where ga: "cocofs_galloc fs lastg = Some (g, fs1, p)"
    using Suc.prems(1) lt by (subst (asm) alloc_loop.simps) (auto split: option.splits)
  from galloc_loop_Some[OF ga[unfolded cocofs_galloc_def] Suc.prems(3)]
  have g: "g < 68" "granule_map fs g = GMAP_FREE"
    and fs1: "fs1 = (set_granule_map fs g GMAP_ALLOCATED)\<lparr>free_granules := free_granules fs - 1\<rparr>"
    by simp_all
  have gil: "gi < length gl0" and rec: "alloc_loop fs1 (gl0[gi := of_nat g]) g (gi + 1) k = Some (fs', gl)"
    using Suc.prems(1) lt ga by (subst (asm) alloc_loop.simps, simp split: if_splits)+
  have n: "n = k - (gi + 1)" using Suc.hyps(2) by simp
  have len1: "length (gl0[gi := of_nat g]) = 68" using Suc.prems(2) by simp
  note ih = Suc.hyps(1)[OF n rec len1 g(1)]
  have gm1: "granule_map fs1 h = (if h = g then GMAP_ALLOCATED else granule_map fs h)" for h
    by (simp add: fs1 granule_map_def set_granule_map_def)
  have img1: "image_data fs1 = (image_data fs)(granule_map_off + g := GMAP_ALLOCATED)"
    by (simp add: fs1 set_granule_map_def)
  have fr1: "free_granules fs1 = free_granules fs - 1" by (simp add: fs1 set_granule_map_def)
  have len: "length gl = 68" using ih by blast
  have k68: "k \<le> 68"
  proof (cases "gi + 1 < k")
    case True then show ?thesis using ih by blast
  next
    case False then show ?thesis using gil Suc.prems(2) by simp
  qed
  have at_gi: "gl ! gi = of_nat g"
  proof -
    have "gl ! gi = (gl0[gi := of_nat g]) ! gi" using ih by simp
    then show ?thesis using gil by simp
  qed
  have ugi: "unat (gl ! gi) = g" unfolding at_gi using g(1) by (simp add: unat_byte_of_nat)
  have later: "unat (gl ! i) < 68 \<and> granule_map fs1 (unat (gl ! i)) = GMAP_FREE \<and>
          granule_map fs' (unat (gl ! i)) = GMAP_ALLOCATED" if "gi + 1 \<le> i" "i < k" for i
    using ih that by blast
  have ne: "unat (gl ! i) \<noteq> g" if "gi + 1 \<le> i" "i < k" for i
    using later[OF that] by (auto simp: gm1 GMAP_FREE_def GMAP_ALLOCATED_def)
  have frame1: "image_data fs' a = image_data fs1 a"
    if "\<forall>i. gi + 1 \<le> i \<and> i < k \<longrightarrow> a \<noteq> granule_map_off + unat (gl ! i)" for a
    using ih that by blast
  have c1: "\<forall>i<gi. gl ! i = gl0 ! i"
  proof (intro allI impI)
    fix i assume "i < gi"
    then have "gl ! i = (gl0[gi := of_nat g]) ! i" using ih by simp
    with \<open>i < gi\<close> show "gl ! i = gl0 ! i" by simp
  qed
  have c2: "\<forall>i. gi \<le> i \<and> i < k \<longrightarrow> unat (gl ! i) < 68 \<and> granule_map fs (unat (gl ! i)) = GMAP_FREE \<and>
          granule_map fs' (unat (gl ! i)) = GMAP_ALLOCATED"
  proof (intro allI impI)
    fix i assume i: "gi \<le> i \<and> i < k"
    show "unat (gl ! i) < 68 \<and> granule_map fs (unat (gl ! i)) = GMAP_FREE \<and>
          granule_map fs' (unat (gl ! i)) = GMAP_ALLOCATED"
    proof (cases "i = gi")
      case True
      have "image_data fs' (granule_map_off + g) = image_data fs1 (granule_map_off + g)"
        using ne by (intro frame1) auto
      then have "granule_map fs' g = GMAP_ALLOCATED" by (simp add: granule_map_def img1)
      with True ugi g show ?thesis by simp
    next
      case False
      with i have i': "gi + 1 \<le> i" "i < k" by simp_all
      from later[OF i'] ne[OF i'] show ?thesis by (simp add: gm1)
    qed
  qed
  have c3: "\<forall>i j. gi \<le> i \<and> i < j \<and> j < k \<longrightarrow> gl ! i \<noteq> gl ! j"
  proof (intro allI impI)
    fix i j assume ij: "gi \<le> i \<and> i < j \<and> j < k"
    show "gl ! i \<noteq> gl ! j"
    proof (cases "i = gi")
      case True
      have "unat (gl ! j) \<noteq> g" using ij True by (intro ne) simp_all
      with ugi True show ?thesis by auto
    next
      case False
      with ij have "gi + 1 \<le> i \<and> i < j \<and> j < k" by simp
      with ih show ?thesis by blast
    qed
  qed
  have "free_granules fs' = free_granules fs1 - of_nat (k - (gi + 1))" using ih by blast
  moreover have "k - gi = Suc (k - (gi + 1))" using lt by simp
  ultimately have c4: "free_granules fs' = free_granules fs - of_nat (k - gi)"
    by (simp add: fr1)
  have c5: "\<forall>a. (\<forall>i. gi \<le> i \<and> i < k \<longrightarrow> a \<noteq> granule_map_off + unat (gl ! i)) \<longrightarrow>
          image_data fs' a = image_data fs a"
  proof (intro allI impI)
    fix a assume a: "\<forall>i. gi \<le> i \<and> i < k \<longrightarrow> a \<noteq> granule_map_off + unat (gl ! i)"
    then have "image_data fs' a = image_data fs1 a" by (intro frame1) auto
    moreover have "a \<noteq> granule_map_off + g" using a[rule_format, of gi] lt ugi by simp
    ultimately show "image_data fs' a = image_data fs a" by (simp add: img1)
  qed
  from len k68 c1 c2 c3 c4 c5 show ?case by blast
qed

section \<open>What the data loop may write\<close>

text \<open>The first 16 bytes of a directory entry, the ones \<^verbatim>\<open>cocofs_copyin\<close> fills in.\<close>

definition dirent_head :: "nat \<Rightarrow> nat set" where
  "dirent_head di = {a. dirent_off di \<le> a \<and> a < dirent_off di + 16}"

lemma cocofs_pread_frame:
  "cocofs_pread src m buf n off = (rv, m') \<Longrightarrow> \<not> (buf \<le> a \<and> a < buf + n) \<Longrightarrow> m' a = m a"
  by (auto simp: cocofs_pread_def write_bytes_def split: option.splits)

lemma write_last_frame:
  assumes "write_last fs di gl k gi g resid name ext ty enc = Some fs'" and "resid \<le> 2304"
  shows "free_granules fs' = free_granules fs"
    and "a \<notin> gran_region g \<Longrightarrow> a \<noteq> granule_map_off + g \<Longrightarrow> a \<notin> dirent_head di \<Longrightarrow>
           image_data fs' a = image_data fs a"
proof -
  from assms(1) show "free_granules fs' = free_granules fs"
    by (auto simp: write_last_def Let_def set_granule_map_def split: if_splits option.splits)
  assume a: "a \<notin> gran_region g" "a \<noteq> granule_map_off + g" "a \<notin> dirent_head di"
  have r: "\<not> (cocofs_granule_to_offset g + resid \<le> a \<and>
              a < cocofs_granule_to_offset g + resid + (2304 - resid))"
    using a(1) assms(2) by (auto simp: gran_region_def)
  have d: "\<not> (dirent_off di \<le> a \<and> a < dirent_off di + length (take 8 name))"
      "\<not> (dirent_off di + 8 \<le> a \<and> a < dirent_off di + 8 + length (take 3 ext))"
      "a \<noteq> dirent_off di + 11" "a \<noteq> dirent_off di + 12" "a \<noteq> dirent_off di + 13"
      "a \<noteq> dirent_off di + 14" "a \<noteq> dirent_off di + 15"
    using a(3) by (auto simp: dirent_head_def)
  from assms(1) show "image_data fs' a = image_data fs a"
    using r d a(2)
    by (auto simp: write_last_def Let_def set_granule_map_def memset_bytes_def write_bytes_def
          COCOFS_BYTES_PER_GRANULE_def COCOFS_SEC_PER_GRANULE_def COCOFS_BYTES_PER_SEC_def
          split: if_splits option.splits)
qed

lemma write_body_frame:
  assumes "write_body fs src di gl k name ext ty enc gi resid = r"
    and "r = Write_done fs' \<or> r = Write_bad fs'"
  shows "free_granules fs' = free_granules fs"
    and "a \<notin> gran_region (unat (gl ! gi)) \<Longrightarrow> a \<noteq> granule_map_off + unat (gl ! gi) \<Longrightarrow>
         a \<notin> dirent_head di \<Longrightarrow> image_data fs' a = image_data fs a"
    and "r = Write_bad fs' \<or> resid > COCOFS_BYTES_PER_GRANULE \<Longrightarrow>
         a \<notin> gran_region (unat (gl ! gi)) \<Longrightarrow> a \<noteq> granule_map_off + unat (gl ! gi) \<Longrightarrow>
         image_data fs' a = image_data fs a"
proof -
  let ?g = "unat (gl ! gi)"
  let ?cursz = "if resid > COCOFS_BYTES_PER_GRANULE then COCOFS_BYTES_PER_GRANULE else resid"
  obtain rv img where pr: "cocofs_pread src (image_data fs) (cocofs_granule_to_offset ?g) ?cursz
                       (gi * COCOFS_BYTES_PER_GRANULE) = (rv, img)"
    by (cases "cocofs_pread src (image_data fs) (cocofs_granule_to_offset ?g) ?cursz
                       (gi * COCOFS_BYTES_PER_GRANULE)") auto
  have csz: "?cursz \<le> 2304" by (simp add: cocofs_consts)
  have imgf: "img a = image_data fs a" if "a \<notin> gran_region ?g" for a
  proof (rule cocofs_pread_frame[OF pr])
    show "\<not> (cocofs_granule_to_offset ?g \<le> a \<and> a < cocofs_granule_to_offset ?g + ?cursz)"
      using that csz unfolding gran_region_def by auto
  qed
  let ?fs1 = "fs\<lparr>image_data := img\<rparr>"
  from assms consider
      (bad) "r = Write_bad fs'" "fs' = ?fs1"
    | (last) "resid \<le> COCOFS_BYTES_PER_GRANULE"
        "write_last ?fs1 di gl k gi ?g resid name ext ty enc = Some fs'" "r = Write_done fs'"
    | (link) "fs' = set_granule_map ?fs1 ?g (gl ! (gi + 1))" "r = Write_done fs'"
    by (auto simp: write_body_def Let_def pr split: if_splits option.splits)
  note cases = this
  show "free_granules fs' = free_granules fs"
  proof (cases rule: cases)
    case bad then show ?thesis by simp
  next
    case last
    from write_last_frame(1)[OF last(2)] last(1) show ?thesis by (simp add: cocofs_consts)
  next
    case link then show ?thesis by (simp add: set_granule_map_def)
  qed
  show "image_data fs' a = image_data fs a"
    if a: "a \<notin> gran_region ?g" "a \<noteq> granule_map_off + ?g" "a \<notin> dirent_head di"
  proof (cases rule: cases)
    case bad then show ?thesis using imgf[OF a(1)] by simp
  next
    case last
    have "resid \<le> 2304" using last(1) by (simp add: cocofs_consts)
    from write_last_frame(2)[OF last(2) this a] show ?thesis using imgf[OF a(1)] by simp
  next
    case link then show ?thesis using imgf[OF a(1)] a(2) by (simp add: set_granule_map_def)
  qed
  show "image_data fs' a = image_data fs a"
    if "r = Write_bad fs' \<or> resid > COCOFS_BYTES_PER_GRANULE" "a \<notin> gran_region ?g"
       "a \<noteq> granule_map_off + ?g"
  proof (cases rule: cases)
    case bad then show ?thesis using imgf[OF that(2)] by simp
  next
    case last with that(1) show ?thesis by simp
  next
    case link then show ?thesis using imgf[OF that(2)] that(3) by (simp add: set_granule_map_def)
  qed
qed

lemma ceil_step:
  "resid \<noteq> 0 \<Longrightarrow>
   (resid + 2303) div 2304 = Suc ((resid - (if resid > 2304 then 2304 else resid) + 2303) div (2304::nat))"
proof (cases "resid > 2304")
  case True
  then have "resid + 2303 = (resid - 2304 + 2303) + 2304" by simp
  then have "(resid + 2303) div 2304 = (resid - 2304 + 2303) div 2304 + 1"
    by (simp only: div_add_self2)
  with True show ?thesis by simp
next
  case False
  assume "resid \<noteq> 0"
  with False have "2304 \<le> resid + 2303" "resid + 2303 < 2 * 2304" by simp_all
  then have "(resid + 2303) div 2304 = 1" by (intro div_nat_eqI) simp_all
  with False show ?thesis by simp
qed

lemma write_loop_end: "write_loop fs src di gl k name ext ty enc gi 0 = Write_done fs"
  by (subst write_loop.simps) simp

lemma write_loop_step:
  "resid \<noteq> 0 \<Longrightarrow>
   write_loop fs src di gl k name ext ty enc gi resid =
     (case write_body fs src di gl k name ext ty enc gi resid of
        Write_abort \<Rightarrow> Write_abort
      | Write_bad fs' \<Rightarrow> Write_bad fs'
      | Write_done fs1 \<Rightarrow>
          write_loop fs1 src di gl k name ext ty enc (gi + 1)
            (resid - (if resid > 2304 then 2304 else resid)))"
proof -
  assume nz: "resid \<noteq> 0"
  have c: "COCOFS_BYTES_PER_GRANULE = 2304" by (simp add: cocofs_consts)
  show ?thesis
    by (subst write_loop.simps) (simp only: c nz if_True not_False_eq_True)
qed

text \<open>The bytes the data loop may write, from granule \<open>gi\<close> of the list on.\<close>

definition loop_untouched :: "byte list \<Rightarrow> nat \<Rightarrow> nat \<Rightarrow> nat \<Rightarrow> bool" where
  "loop_untouched gl gi resid a =
     (\<forall>i. gi \<le> i \<and> i < gi + (resid + 2303) div 2304 \<longrightarrow>
          a \<notin> gran_region (unat (gl ! i)) \<and> a \<noteq> granule_map_off + unat (gl ! i))"

lemma loop_untouched_step:
  assumes "loop_untouched gl gi resid a" and "resid \<noteq> 0"
  shows "a \<notin> gran_region (unat (gl ! gi))" and "a \<noteq> granule_map_off + unat (gl ! gi)"
    and "loop_untouched gl (gi + 1) (resid - (if resid > 2304 then 2304 else resid)) a"
proof -
  note c = ceil_step[OF assms(2)]
  from assms(1) show "a \<notin> gran_region (unat (gl ! gi))" "a \<noteq> granule_map_off + unat (gl ! gi)"
    unfolding loop_untouched_def c by auto
  from assms(1) show "loop_untouched gl (gi + 1) (resid - (if resid > 2304 then 2304 else resid)) a"
    unfolding loop_untouched_def c by auto
qed

lemma write_loop_frame:
  "write_loop fs src di gl k name ext ty enc gi resid = r \<Longrightarrow>
   r = Write_done fs' \<or> r = Write_bad fs' \<Longrightarrow>
     free_granules fs' = free_granules fs \<and>
     (\<forall>a. loop_untouched gl gi resid a \<longrightarrow> (a \<notin> dirent_head di \<or> r = Write_bad fs') \<longrightarrow>
          image_data fs' a = image_data fs a)"
proof (induction n \<equiv> "(resid + 2303) div 2304" arbitrary: fs gi resid)
  case 0
  then have "resid = 0" by simp
  with "0.prems" show ?case by (auto simp: write_loop_end)
next
  case (Suc n)
  then have nz: "resid \<noteq> 0" by auto
  let ?resid' = "resid - (if resid > 2304 then 2304 else resid)"
  have n: "n = (?resid' + 2303) div 2304" using Suc.hyps(2) ceil_step[OF nz] by simp
  note st = write_loop_step[OF nz, of fs src di gl k name ext ty enc gi]
  show ?case
  proof (cases "write_body fs src di gl k name ext ty enc gi resid")
    case Write_abort
    with st Suc.prems show ?thesis by simp
  next
    case (Write_bad fsb)
    with st Suc.prems have r: "r = Write_bad fs'" and e: "fsb = fs'" by auto
    have b: "write_body fs src di gl k name ext ty enc gi resid = Write_bad fs'"
      using Write_bad e by simp
    have "free_granules fs' = free_granules fs"
      by (rule write_body_frame(1)[OF b]) simp
    moreover have "image_data fs' a = image_data fs a" if "loop_untouched gl gi resid a" for a
      using write_body_frame(3)[OF b, of fs' a] loop_untouched_step(1,2)[OF that nz] by simp
    ultimately show ?thesis by blast
  next
    case (Write_done fs1)
    with st Suc.prems(1) have rec: "write_loop fs1 src di gl k name ext ty enc (gi + 1) ?resid' = r"
      by simp
    note ih = Suc.hyps(1)[OF n rec Suc.prems(2)]
    have f1: "free_granules fs1 = free_granules fs"
      by (rule write_body_frame(1)[OF Write_done]) simp
    have "image_data fs' a = image_data fs a"
      if u: "loop_untouched gl gi resid a" and d: "a \<notin> dirent_head di \<or> r = Write_bad fs'" for a
    proof -
      note s = loop_untouched_step[OF u nz]
      have "image_data fs' a = image_data fs1 a" using ih s(3) d by blast
      moreover have "image_data fs1 a = image_data fs a"
      proof (cases "a \<notin> dirent_head di")
        case True
        show ?thesis by (rule write_body_frame(2)[OF Write_done _ s(1,2) True]) simp
      next
        case False
        with d have bad: "r = Write_bad fs'" by simp
        have "resid > 2304"
        proof (rule ccontr)
          assume "\<not> resid > 2304"
          then have "?resid' = 0" by simp
          with rec have "r = Write_done fs1" by (simp add: write_loop_end)
          with bad show False by simp
        qed
        then have "Write_done fs1 = Write_bad fs1 \<or> resid > COCOFS_BYTES_PER_GRANULE"
          by (simp add: cocofs_consts)
        from write_body_frame(3)[OF Write_done _ this s(1,2)] show ?thesis by simp
      qed
      ultimately show ?thesis by simp
    qed
    with ih f1 show ?thesis by auto
  qed
qed

section \<open>A failed add\<close>

lemma find_free_dirent_Some:
  "find_free_dirent fs i = Some d \<Longrightarrow> i \<le> d \<and> d < 72 \<and> d_type fs d = 0xff"
proof (induction n \<equiv> "72 - i" arbitrary: i)
  case 0
  then show ?case by (subst (asm) find_free_dirent.simps) (simp add: cocofs_consts)
next
  case (Suc n)
  then have i: "i < 72" by simp
  show ?case
  proof (cases "d_type fs i = 0xff")
    case True
    with Suc.prems i show ?thesis
      by (subst (asm) find_free_dirent.simps) (simp add: cocofs_consts)
  next
    case False
    with Suc.prems i have "find_free_dirent fs (i + 1) = Some d"
      by (subst (asm) find_free_dirent.simps) (simp add: cocofs_consts)
    moreover have "n = 72 - (i + 1)" using Suc.hyps(2) by simp
    ultimately have "i + 1 \<le> d \<and> d < 72 \<and> d_type fs d = 0xff" using Suc.hyps(1) by blast
    then show ?thesis by simp
  qed
qed

lemma read_bytes_const: "(\<And>k. k < n \<Longrightarrow> m (off + k) = v) \<Longrightarrow> read_bytes m off n = replicate n v"
  by (simp add: list_eq_iff_nth_eq)

lemma read_write_bytes_same: "read_bytes (write_bytes m off bs) off (length bs) = bs"
  by (simp add: list_eq_iff_nth_eq write_bytes_def)

lemma dir_addr_untouched:
  "78848 \<le> a \<Longrightarrow> a < 82944 \<Longrightarrow> loop_untouched gl gi resid a"
proof -
  assume a: "78848 \<le> a" "a < 82944"
  have "a \<notin> gran_region g" for g using gran_region_not_dir_track[of a g] a by auto
  moreover have "a \<noteq> granule_map_off + unat b" for b :: byte
    using unsigned_less[of b, where 'a=nat] a by (simp add: cocofs_consts)
  ultimately show ?thesis by (simp add: loop_untouched_def)
qed

lemma dirent_addr_range: "d < 72 \<Longrightarrow> k < 32 \<Longrightarrow> 78848 \<le> dirent_off d + k \<and> dirent_off d + k < 81152"
  by (simp add: dirent_off_def cocofs_consts)

lemma copyin_no_open:
  "\<not> in_open_ok src \<Longrightarrow> cocofs_copyin fs src name ext type enc = Copyin_failed CI_open fs"
  by (simp add: cocofs_copyin_def Let_def)

lemma copyin_no_fstat:
  "in_open_ok src \<Longrightarrow> in_fstat src = None \<Longrightarrow>
   cocofs_copyin fs src name ext type enc = Copyin_failed CI_fstat fs"
  by (simp add: cocofs_copyin_def Let_def copyin_bad_no_slot)

lemma copyin_no_space:
  "in_open_ok src \<Longrightarrow> in_fstat src = Some L \<Longrightarrow>
   L > unat (free_granules fs * of_nat COCOFS_BYTES_PER_GRANULE) \<Longrightarrow>
   cocofs_copyin fs src name ext type enc = Copyin_failed CI_nospace fs"
  by (simp add: cocofs_copyin_def Let_def copyin_bad_no_slot)

lemma copyin_no_dirent:
  "in_open_ok src \<Longrightarrow> in_fstat src = Some L \<Longrightarrow>
   \<not> L > unat (free_granules fs * of_nat COCOFS_BYTES_PER_GRANULE) \<Longrightarrow>
   find_free_dirent fs 0 = None \<Longrightarrow>
   cocofs_copyin fs src name ext type enc = Copyin_failed CI_nodir fs"
  using capacity_check_bound(2)[of L "free_granules fs"]
  by (simp add: cocofs_copyin_def Let_def copyin_bad_no_slot)

lemma copyin_no_alloc:
  "in_open_ok src \<Longrightarrow> in_fstat src = Some L \<Longrightarrow>
   \<not> L > unat (free_granules fs * of_nat COCOFS_BYTES_PER_GRANULE) \<Longrightarrow>
   find_free_dirent fs 0 = Some d \<Longrightarrow>
   alloc_loop fs (replicate COCOFS_NGRANULES 0xff) (COCOFS_NGRANULES div 2) 0 (granules_needed_for L) = None \<Longrightarrow>
   cocofs_copyin fs src name ext type enc = Copyin_aborted"
  using capacity_check_bound(2)[of L "free_granules fs"]
  by (simp add: cocofs_copyin_def Let_def)

lemma copyin_data_loop:
  "in_open_ok src \<Longrightarrow> in_fstat src = Some L \<Longrightarrow>
   \<not> L > unat (free_granules fs * of_nat COCOFS_BYTES_PER_GRANULE) \<Longrightarrow>
   find_free_dirent fs 0 = Some d \<Longrightarrow>
   alloc_loop fs (replicate COCOFS_NGRANULES 0xff) (COCOFS_NGRANULES div 2) 0 (granules_needed_for L)
     = Some (fs1, gl1) \<Longrightarrow>
   cocofs_copyin fs src name ext type enc =
     (case write_loop fs1 src d gl1 (granules_needed_for L) name ext type enc 0 L of
        Write_abort \<Rightarrow> Copyin_aborted
      | Write_bad fs2 \<Rightarrow>
          copyin_bad fs2 (read_bytes (image_data fs) granule_map_off COCOFS_NGRANULES)
            (free_granules fs) (Some d) CI_read
      | Write_done fs2 \<Rightarrow> Copyin_ok fs2)"
  using capacity_check_bound[of L "free_granules fs"]
  by (simp add: cocofs_copyin_def Let_def)

lemma copyin_failed_cases:
  assumes "cocofs_copyin fs src name ext type enc = Copyin_failed e fs'"
  obtains (same) "fs' = fs" "e \<noteq> CI_read"
  | (read) d fs1 gl1 fs2 k L where "find_free_dirent fs 0 = Some d"
      "alloc_loop fs (replicate COCOFS_NGRANULES 0xff) (COCOFS_NGRANULES div 2) 0 k = Some (fs1, gl1)"
      "write_loop fs1 src d gl1 k name ext type enc 0 L = Write_bad fs2"
      "e = CI_read"
      "fs' = \<lparr>image_data = write_bytes (memset_bytes (image_data fs2) (dirent_off d) 0xff sizeof_dirent)
                 granule_map_off (read_bytes (image_data fs) granule_map_off COCOFS_NGRANULES),
              free_granules = free_granules fs\<rparr>"
proof (cases "in_open_ok src")
  case False
  from copyin_no_open[OF False] assms same show ?thesis by simp
next
  case op: True
  show ?thesis
  proof (cases "in_fstat src")
    case None
    from copyin_no_fstat[OF op None] assms same show ?thesis by simp
  next
    case (Some L)
    show ?thesis
    proof (cases "L > unat (free_granules fs * of_nat COCOFS_BYTES_PER_GRANULE)")
      case True
      from copyin_no_space[OF op Some True] assms same show ?thesis by simp
    next
      case cap: False
      show ?thesis
      proof (cases "find_free_dirent fs 0")
        case None
        from copyin_no_dirent[OF op Some cap None] assms same show ?thesis by simp
      next
        case d: (Some d)
        show ?thesis
        proof (cases "alloc_loop fs (replicate COCOFS_NGRANULES 0xff) (COCOFS_NGRANULES div 2) 0
                        (granules_needed_for L)")
          case None
          from copyin_no_alloc[OF op Some cap d None] assms show ?thesis by simp
        next
          case al: (Some p)
          obtain fs1 gl1 where p: "p = (fs1, gl1)" by (cases p)
          note eq = copyin_data_loop[OF op Some cap d al[unfolded p], of name ext type enc]
          show ?thesis
          proof (cases "write_loop fs1 src d gl1 (granules_needed_for L) name ext type enc 0 L")
            case Write_abort
            with eq assms show ?thesis by simp
          next
            case (Write_bad fs2)
            with eq assms have "e = CI_read"
              "fs' = \<lparr>image_data = write_bytes (memset_bytes (image_data fs2) (dirent_off d) 0xff sizeof_dirent)
                 granule_map_off (read_bytes (image_data fs) granule_map_off COCOFS_NGRANULES),
              free_granules = free_granules fs\<rparr>"
              by (simp_all add: copyin_bad_def)
            with read[OF d al[unfolded p] Write_bad] show ?thesis by simp
          next
            case (Write_done fs2)
            with eq assms show ?thesis by simp
          qed
        qed
      qed
    qed
  qed
qed

text \<open>
  C1, as amended.  After a failed add the count of free granules and the 68 bytes of the
  granule map are what they were before, and so is every directory entry other than the
  one the add had claimed (the first whose type byte is 0xff).  The claimed entry is as
  before when the add failed before the data loop; after a failed read it is filled
  with 0xff.  So the whole directory is as before whenever every entry with type byte
  0xff was filled with 0xff before the add, as is the case in the images this program
  formats and in the entries it frees.
\<close>

theorem copyin_failure_rollback:
  "cocofs_copyin fs src name ext type enc = Copyin_failed e fs' \<Longrightarrow>
     free_granules fs' = free_granules fs \<and>
     read_bytes (image_data fs') granule_map_off 68 = read_bytes (image_data fs) granule_map_off 68 \<and>
     (\<forall>d<72. find_free_dirent fs 0 \<noteq> Some d \<longrightarrow> dirent_bytes fs' d = dirent_bytes fs d) \<and>
     (\<forall>d. find_free_dirent fs 0 = Some d \<longrightarrow>
          (if e = CI_read then dirent_bytes fs' d = replicate 32 0xff
           else dirent_bytes fs' d = dirent_bytes fs d)) \<and>
     ((\<forall>d<72. d_type fs d = 0xff \<longrightarrow> dirent_bytes fs d = replicate 32 0xff) \<longrightarrow>
          (\<forall>d<72. dirent_bytes fs' d = dirent_bytes fs d))"
proof -
  assume a: "cocofs_copyin fs src name ext type enc = Copyin_failed e fs'"
  from a show ?thesis
  proof (cases rule: copyin_failed_cases)
    case same
    then show ?thesis by simp
  next
    case (read d0 fs1 gl1 fs2 k L)
    let ?orig = "read_bytes (image_data fs) granule_map_off 68"
    have img': "image_data fs' = write_bytes (memset_bytes (image_data fs2) (dirent_off d0) 0xff 32)
                 granule_map_off ?orig"
      and fr: "free_granules fs' = free_granules fs"
      using read(5) by (simp_all add: cocofs_consts)
    have d0: "d0 < 72" "d_type fs d0 = 0xff" using find_free_dirent_Some[OF read(1)] by simp_all
    have gm: "read_bytes (image_data fs') granule_map_off 68 = ?orig"
      unfolding img' using read_write_bytes_same[of _ granule_map_off ?orig] by simp
    have al: "alloc_loop fs (replicate 68 0xff) 34 0 k = Some (fs1, gl1)"
      using read(2) by (simp add: cocofs_consts)
    note ar = alloc_loop_result[OF al]
    have dir_kept: "image_data fs2 a = image_data fs a" if "78848 \<le> a" "a < 82944" for a
    proof -
      have "image_data fs2 a = image_data fs1 a"
        using write_loop_frame[OF read(3), of fs2] dir_addr_untouched[OF that] by simp
      moreover have "a \<noteq> granule_map_off + unat b" for b :: byte
        using unsigned_less[of b, where 'a=nat] that by (simp add: cocofs_consts)
      then have "image_data fs1 a = image_data fs a" using ar by simp
      ultimately show ?thesis by simp
    qed
    have after: "image_data fs' (dirent_off d + j) =
        (if d = d0 then 0xff else image_data fs (dirent_off d + j))" if "d < 72" "j < 32" for d j
    proof -
      from dirent_addr_range[OF that] have r: "78848 \<le> dirent_off d + j" "dirent_off d + j < 81152"
        by simp_all
      have "image_data fs' (dirent_off d + j) =
              memset_bytes (image_data fs2) (dirent_off d0) 0xff 32 (dirent_off d + j)"
        unfolding img' using r by (simp add: write_bytes_def cocofs_consts)
      also have "\<dots> = (if d = d0 then 0xff else image_data fs2 (dirent_off d + j))"
        using that(2) by (auto simp: memset_bytes_def dirent_off_def cocofs_consts)
      also have "image_data fs2 (dirent_off d + j) = image_data fs (dirent_off d + j)"
        using r by (intro dir_kept) simp_all
      finally show ?thesis .
    qed
    have other: "dirent_bytes fs' d = dirent_bytes fs d" if "d < 72" "d \<noteq> d0" for d
      unfolding dirent_bytes_def sizeof_dirent_def
      by (rule read_bytes_cong) (use after[OF that(1)] that(2) in simp)
    have claimed: "dirent_bytes fs' d0 = replicate 32 0xff"
      unfolding dirent_bytes_def sizeof_dirent_def
      using read_bytes_const[of 32 "image_data fs'" "dirent_off d0" "0xff"] after[OF d0(1)] by simp
    have clean: "dirent_bytes fs' d = dirent_bytes fs d"
      if "\<forall>d<72. d_type fs d = 0xff \<longrightarrow> dirent_bytes fs d = replicate 32 0xff" "d < 72" for d
    proof (cases "d = d0")
      case True
      with that(1) d0 claimed show ?thesis by simp
    next
      case False
      with other that(2) show ?thesis by simp
    qed
    from fr gm other claimed clean read(1,4) show ?thesis by auto
  qed
qed

text \<open>
  A formatted image whose first directory entry is free by its type byte but still has
  the letter A as the first byte of its name, and a source of one byte that cannot be
  read.
\<close>

definition stale_slot_fs :: cocofs where
  "stale_slot_fs = cocofs_format\<lparr>image_data := (image_data cocofs_format)(dirent_off 0 := 0x41)\<rparr>"

definition unreadable_src :: infile where
  "unreadable_src = \<lparr>in_open_ok = True, in_fstat = Some 1, in_pread = (\<lambda>off n. None)\<rparr>"

definition stale_slot_after :: cocofs where
  "stale_slot_after =
     \<lparr>image_data =
        write_bytes
          (memset_bytes ((image_data stale_slot_fs)(granule_map_off + 34 := 0xfe)) (dirent_off 0) 0xff 32)
          granule_map_off (read_bytes (image_data stale_slot_fs) granule_map_off 68),
      free_granules = 68\<rparr>"

lemma stale_slot_copyin:
  "cocofs_copyin stale_slot_fs unreadable_src [] [] 1 0 = Copyin_failed CI_read stale_slot_after"
proof -
  let ?fs1 = "(set_granule_map stale_slot_fs 34 GMAP_ALLOCATED)\<lparr>free_granules := 67\<rparr>"
  let ?gl1 = "(replicate 68 (0xff::byte))[0 := 34]"
  have fr: "free_granules stale_slot_fs = 68"
    by (simp add: stale_slot_fs_def cocofs_format_def cocofs_consts)
  have op: "in_open_ok unreadable_src" and st: "in_fstat unreadable_src = Some 1"
    by (simp_all add: unreadable_src_def)
  have cap: "\<not> 1 > unat (free_granules stale_slot_fs * of_nat COCOFS_BYTES_PER_GRANULE)"
    by (simp add: fr cocofs_consts)
  have ff: "find_free_dirent stale_slot_fs 0 = Some 0"
    by (subst find_free_dirent.simps)
       (simp add: d_type_def dirent_off_def stale_slot_fs_def cocofs_format_def cocofs_alloc_def
          memset_bytes_def cocofs_consts)
  have gn: "granules_needed_for 1 = 1" by (simp add: granules_needed_for_small)
  have g34: "granule_map stale_slot_fs 34 = GMAP_FREE"
    by (simp add: granule_map_def dirent_off_def stale_slot_fs_def cocofs_format_def cocofs_alloc_def
          memset_bytes_def cocofs_consts)
  have ga: "cocofs_galloc stale_slot_fs 34 = Some (34, ?fs1, 1)"
    unfolding cocofs_galloc_def using galloc_loop_found[of 34 0 0 stale_slot_fs] g34 by (simp add: fr)
  have al: "alloc_loop stale_slot_fs (replicate COCOFS_NGRANULES 0xff) (COCOFS_NGRANULES div 2) 0
              (granules_needed_for 1) = Some (?fs1, ?gl1)"
    unfolding gn
    by (subst alloc_loop.simps, simp add: cocofs_consts ga, subst alloc_loop.simps, simp)
  have gm1: "granule_map ?fs1 34 = GMAP_ALLOCATED"
    by (simp add: granule_map_def set_granule_map_def)
  have wb: "write_body ?fs1 unreadable_src 0 ?gl1 1 [] [] 1 0 0 1 = Write_bad ?fs1"
    by (simp add: write_body_def Let_def granule_map_def set_granule_map_def cocofs_pread_def
          unreadable_src_def GMAP_ALLOCATED_def)
  have wl: "write_loop ?fs1 unreadable_src 0 ?gl1 (granules_needed_for 1) [] [] 1 0 0 1 = Write_bad ?fs1"
    unfolding gn
    using write_loop_step[of 1 ?fs1 unreadable_src 0 ?gl1 1 "[]" "[]" 1 0 0] wb by simp
  have "cocofs_copyin stale_slot_fs unreadable_src [] [] 1 0 =
          copyin_bad ?fs1 (read_bytes (image_data stale_slot_fs) granule_map_off COCOFS_NGRANULES)
            (free_granules stale_slot_fs) (Some 0) CI_read"
    unfolding copyin_data_loop[OF op st cap ff al, of "[]" "[]" 1 0] wl by simp
  then show ?thesis
    by (simp add: copyin_bad_def stale_slot_after_def set_granule_map_def fr cocofs_consts)
qed

theorem copyin_failure_rollback_witness:
  "free_granules stale_slot_after = free_granules stale_slot_fs \<and>
   read_bytes (image_data stale_slot_after) granule_map_off 68 =
     read_bytes (image_data stale_slot_fs) granule_map_off 68 \<and>
   dirent_bytes stale_slot_after 0 = replicate 32 0xff"
proof -
  have ff: "find_free_dirent stale_slot_fs 0 = Some 0"
    by (subst find_free_dirent.simps)
       (simp add: d_type_def dirent_off_def stale_slot_fs_def cocofs_format_def cocofs_alloc_def
          memset_bytes_def cocofs_consts)
  from copyin_failure_rollback[OF stale_slot_copyin] ff show ?thesis by simp
qed

text \<open>
  C1 as stated fails on \<open>stale_slot_fs\<close>: the add fails at the read, and the claimed
  directory entry, whose first byte was 0x41, is all 0xff afterwards.
\<close>

theorem copyin_failure_scrubs_slot_counterexample:
  "cocofs_copyin stale_slot_fs unreadable_src [] [] 1 0 = Copyin_failed CI_read stale_slot_after \<and>
   d_type stale_slot_fs 0 = 0xff \<and>
   dirent_bytes stale_slot_fs 0 ! 0 = 0x41 \<and> dirent_bytes stale_slot_after 0 ! 0 = 0xff \<and>
   dirent_bytes stale_slot_after 0 \<noteq> dirent_bytes stale_slot_fs 0"
proof -
  have t: "d_type stale_slot_fs 0 = 0xff"
    by (simp add: d_type_def dirent_off_def stale_slot_fs_def cocofs_format_def cocofs_alloc_def
          memset_bytes_def cocofs_consts)
  have b: "dirent_bytes stale_slot_fs 0 ! 0 = 0x41"
    by (simp add: dirent_bytes_def sizeof_dirent_def stale_slot_fs_def)
  have a: "dirent_bytes stale_slot_after 0 ! 0 = 0xff"
    by (simp add: dirent_bytes_def sizeof_dirent_def stale_slot_after_def write_bytes_def
          memset_bytes_def dirent_off_def cocofs_consts)
  from a b have "dirent_bytes stale_slot_after 0 \<noteq> dirent_bytes stale_slot_fs 0" by auto
  with stale_slot_copyin t a b show ?thesis by simp
qed

end
